theory Spec2Isabelle
  imports Complex_Main "HOL-Library.AList"
begin

section \<open>ConnectionManager: \<^verbatim>\<open>service/websocket-service.js\<close>\<close>

text \<open>
  \<^verbatim>\<open>createWebSocketService\<close> closes over four variables: the socket \<^verbatim>\<open>ws\<close>, the counter
  \<^verbatim>\<open>reconnectAttempts\<close>, the constant \<^verbatim>\<open>maxReconnectAttempts\<close> and the \<^verbatim>\<open>listeners\<close> map.
  The record below holds them, together with what the service hands to the browser:
  the timers it has started with \<^verbatim>\<open>setTimeout\<close>, each with its delay, and the frames it
  has sent. Console output is
  diagnostic only and is left out.

  A callback is a function reference; \<^verbatim>\<open>indexOf\<close> compares references, so a callback is
  a value of a type \<open>'cb\<close> with equality and what it does when called is given
  separately (see \<open>forEach_callback\<close>).
\<close>

datatype ready_state = CONNECTING | OPEN | CLOSING | CLOSED

datatype timer = Reconnect nat | RequestInitialData nat

record 'cb service =
  ws :: "ready_state option"
  reconnectAttempts :: nat
  listeners :: "string \<rightharpoonup> 'cb list"
  timers :: "timer list"
  sent :: "string list"

definition maxReconnectAttempts :: nat where
  "maxReconnectAttempts = 5"

definition createWebSocketService :: "'cb service" where
  "createWebSocketService =
     \<lparr>ws = None, reconnectAttempts = 0, listeners = Map.empty, timers = [], sent = []\<rparr>"

subsection \<open>The event system: on, off, emit\<close>

definition on :: "string \<Rightarrow> 'cb \<Rightarrow> 'cb service \<Rightarrow> 'cb service" where
  "on event callback s =
     (let ls = (case listeners s event of None \<Rightarrow> (listeners s)(event \<mapsto> []) | Some _ \<Rightarrow> listeners s)
      in case ls event of
           None \<Rightarrow> s
         | Some callbacks \<Rightarrow> s\<lparr>listeners := ls(event \<mapsto> callbacks @ [callback])\<rparr>)"

text \<open>\<^verbatim>\<open>Array.prototype.indexOf\<close>: the first index holding the value, or \<open>-1\<close>.\<close>

fun indexOf :: "'a list \<Rightarrow> 'a \<Rightarrow> int" where
  "indexOf [] v = -1"
| "indexOf (x # xs) v =
     (if x = v then 0 else (let i = indexOf xs v in if i = -1 then -1 else i + 1))"

text \<open>\<^verbatim>\<open>callbacks.splice(index, 1)\<close> for \<open>index \<ge> 0\<close>: the element at the index is removed.\<close>

definition splice1 :: "'a list \<Rightarrow> nat \<Rightarrow> 'a list" where
  "splice1 xs index = take index xs @ drop (Suc index) xs"

definition off :: "string \<Rightarrow> 'cb \<Rightarrow> 'cb service \<Rightarrow> 'cb service" where
  "off event callback s =
     (case listeners s event of
        None \<Rightarrow> s
      | Some callbacks \<Rightarrow>
          (let index = indexOf callbacks callback
           in if index > -1
              then s\<lparr>listeners := (listeners s)(event \<mapsto> splice1 callbacks (nat index))\<rparr>
              else s))"

text \<open>
  Calling a callback either returns or throws, and in both cases it may have changed the
  state \<open>'a\<close> of the panels before it did. \<open>call cb d a\<close> gives the outcome and the state
  left behind. \<^verbatim>\<open>emit\<close> wraps each call in \<^verbatim>\<open>try\<close>/\<^verbatim>\<open>catch\<close>: the \<open>Threw\<close> branch logs and
  goes on with the next callback. Callbacks here act on the panels' state only; one
  that changes the listener array while it is iterated is not modelled.
\<close>

datatype outcome = Returned | Threw

fun forEach_callback ::
  "('cb \<Rightarrow> 'd option \<Rightarrow> 'a \<Rightarrow> outcome \<times> 'a) \<Rightarrow> 'd option \<Rightarrow> 'cb list \<Rightarrow> 'a \<Rightarrow> 'a" where
  "forEach_callback call d [] a = a"
| "forEach_callback call d (cb # cbs) a =
     (case call cb d a of
        (Returned, a') \<Rightarrow> forEach_callback call d cbs a'
      | (Threw, a') \<Rightarrow> forEach_callback call d cbs a')"

definition emit ::
  "('cb \<Rightarrow> 'd option \<Rightarrow> 'a \<Rightarrow> outcome \<times> 'a) \<Rightarrow> 'cb service \<Rightarrow> string \<Rightarrow> 'd option \<Rightarrow> 'a \<Rightarrow> 'a" where
  "emit call s event d a =
     (case listeners s event of
        None \<Rightarrow> a
      | Some callbacks \<Rightarrow> forEach_callback call d callbacks a)"

text \<open>
  To observe which callbacks \<^verbatim>\<open>emit\<close> invokes, a call behaviour is wrapped so that every
  invocation is appended to a trace kept beside the state. The wrapper changes neither
  the outcome nor the state the callback leaves.
\<close>

definition traced ::
  "('cb \<Rightarrow> 'd option \<Rightarrow> 'a \<Rightarrow> outcome \<times> 'a) \<Rightarrow>
   'cb \<Rightarrow> 'd option \<Rightarrow> ('cb \<times> 'd option) list \<times> 'a \<Rightarrow> outcome \<times> ('cb \<times> 'd option) list \<times> 'a" where
  "traced call cb d ta =
     (case call cb d (snd ta) of (r, a') \<Rightarrow> (r, (fst ta @ [(cb, d)], a')))"

subsection \<open>connect, disconnect, send and the socket's event handlers\<close>

text \<open>
  \<^verbatim>\<open>connect\<close> returns at once when the socket is open and otherwise replaces \<^verbatim>\<open>ws\<close> by a new
  socket, which starts in \<open>CONNECTING\<close>. \<^verbatim>\<open>disconnect\<close> closes the socket and forgets it; its
  close event follows later. The handlers below are those of the socket \<^verbatim>\<open>ws\<close> refers to;
  the browser sets its \<^verbatim>\<open>readyState\<close> before it fires the event.
\<close>

definition connect :: "'cb service \<Rightarrow> 'cb service" where
  "connect s = (if ws s = Some OPEN then s else s\<lparr>ws := Some CONNECTING\<rparr>)"

definition disconnect :: "'cb service \<Rightarrow> 'cb service" where
  "disconnect s = (case ws s of None \<Rightarrow> s | Some _ \<Rightarrow> s\<lparr>ws := None\<rparr>)"

definition send :: "string \<Rightarrow> 'cb service \<Rightarrow> bool \<times> 'cb service" where
  "send frame s =
     (if ws s = Some OPEN then (True, s\<lparr>sent := sent s @ [frame]\<rparr>) else (False, s))"

definition requestInitialData :: "'cb service \<Rightarrow> 'cb service" where
  "requestInitialData s = snd (send ''get_initial_data'' s)"

definition set_readyState :: "ready_state \<Rightarrow> 'cb service \<Rightarrow> 'cb service" where
  "set_readyState r s = (case ws s of None \<Rightarrow> s | Some _ \<Rightarrow> s\<lparr>ws := Some r\<rparr>)"

definition onopen ::
  "('cb \<Rightarrow> 'd option \<Rightarrow> 'a \<Rightarrow> outcome \<times> 'a) \<Rightarrow> 'cb service \<times> 'a \<Rightarrow> 'cb service \<times> 'a" where
  "onopen call sa =
     (let s = (set_readyState OPEN (fst sa))\<lparr>reconnectAttempts := 0\<rparr>;
          a = emit call s ''connected'' None (snd sa)
      in (s\<lparr>timers := timers s @ [RequestInitialData 1000]\<rparr>, a))"

text \<open>
  \<^verbatim>\<open>JSON.parse\<close> is a parameter: \<open>None\<close> stands for the \<^verbatim>\<open>SyntaxError\<close> it throws on a
  malformed payload, which the \<^verbatim>\<open>catch\<close> of \<^verbatim>\<open>onmessage\<close> logs.
\<close>

definition onmessage ::
  "(string \<Rightarrow> 'd option) \<Rightarrow> ('cb \<Rightarrow> 'd option \<Rightarrow> 'a \<Rightarrow> outcome \<times> 'a) \<Rightarrow>
   string \<Rightarrow> 'cb service \<times> 'a \<Rightarrow> 'cb service \<times> 'a" where
  "onmessage JSON_parse call event_data sa =
     (case JSON_parse event_data of
        None \<Rightarrow> sa
      | Some data \<Rightarrow> (fst sa, emit call (fst sa) ''message'' (Some data) (snd sa)))"

definition reconnect_delay :: "nat \<Rightarrow> nat" where
  "reconnect_delay attempts = min (3000 * attempts) 30000"

definition onclose ::
  "('cb \<Rightarrow> 'd option \<Rightarrow> 'a \<Rightarrow> outcome \<times> 'a) \<Rightarrow> 'cb service \<times> 'a \<Rightarrow> 'cb service \<times> 'a" where
  "onclose call sa =
     (let s = set_readyState CLOSED (fst sa);
          a = emit call s ''disconnected'' None (snd sa)
      in if reconnectAttempts s < maxReconnectAttempts
         then (let n = reconnectAttempts s + 1;
                   delay = reconnect_delay n
               in (s\<lparr>reconnectAttempts := n, timers := timers s @ [Reconnect delay]\<rparr>, a))
         else (s, a))"

definition onerror ::
  "('cb \<Rightarrow> 'd option \<Rightarrow> 'a \<Rightarrow> outcome \<times> 'a) \<Rightarrow> 'd option \<Rightarrow> 'cb service \<times> 'a \<Rightarrow> 'cb service \<times> 'a" where
  "onerror call error sa = (fst sa, emit call (fst sa) ''error'' error (snd sa))"

text \<open>
  What happens to the service: the events its socket delivers, and the calls of
  \<^verbatim>\<open>connect\<close>, \<^verbatim>\<open>disconnect\<close> and \<^verbatim>\<open>requestInitialData\<close> that the component and the
  service's own timers make. \<open>ws_run\<close> runs the handlers over a sequence of them.
\<close>

datatype 'd ws_event =
  Open | Message string | Close | Error "'d option"
  | CallConnect | CallDisconnect | CallRequestInitialData

fun ws_step ::
  "(string \<Rightarrow> 'd option) \<Rightarrow> ('cb \<Rightarrow> 'd option \<Rightarrow> 'a \<Rightarrow> outcome \<times> 'a) \<Rightarrow>
   'cb service \<times> 'a \<Rightarrow> 'd ws_event \<Rightarrow> 'cb service \<times> 'a" where
  "ws_step JSON_parse call sa Open = onopen call sa"
| "ws_step JSON_parse call sa (Message event_data) = onmessage JSON_parse call event_data sa"
| "ws_step JSON_parse call sa Close = onclose call sa"
| "ws_step JSON_parse call sa (Error e) = onerror call e sa"
| "ws_step JSON_parse call sa CallConnect = (connect (fst sa), snd sa)"
| "ws_step JSON_parse call sa CallDisconnect = (disconnect (fst sa), snd sa)"
| "ws_step JSON_parse call sa CallRequestInitialData = (requestInitialData (fst sa), snd sa)"

definition ws_run ::
  "(string \<Rightarrow> 'd option) \<Rightarrow> ('cb \<Rightarrow> 'd option \<Rightarrow> 'a \<Rightarrow> outcome \<times> 'a) \<Rightarrow>
   'cb service \<times> 'a \<Rightarrow> 'd ws_event list \<Rightarrow> 'cb service \<times> 'a" where
  "ws_run JSON_parse call sa evs = foldl (ws_step JSON_parse call) sa evs"

section \<open>MetricsAggregator: the dashboard component (\<^verbatim>\<open>src/unnamed/part_003\<close>)\<close>

text \<open>
  A snapshot maps adapter ids to metrics and metrics map names to values, numeric or
  boolean. Numbers are rationals: the source's doubles without rounding, \<open>NaN\<close> and the
  infinities, none of which JSON can carry. An object whose property order is
  observed (\<^verbatim>\<open>Object.entries\<close>, \<^verbatim>\<open>Object.keys\<close>, \<^verbatim>\<open>JSON.stringify\<close>) is an association list:
  \<open>map_of\<close> reads a property, \<open>AList.update\<close> assigns one (in place when the key exists,
  at the end otherwise). That is JavaScript's order for every key that is not a canonical
  array index, which adapter ids are not.
\<close>

datatype metric_value = Num rat | Flag bool

type_synonym metrics = "string \<rightharpoonup> metric_value"

type_synonym snapshot = "(string \<times> metrics) list"

record point =
  px :: rat
  py :: metric_value

type_synonym series_bundle = "(string \<times> point list) list"

text \<open>
  The adapter object \<^verbatim>\<open>{...old, ...metrics, lastUpdate}\<close>: its metric properties and its
  \<^verbatim>\<open>lastUpdate\<close>, for which the source stores the locale rendering of the clock reading
  kept here.
\<close>

record adapter_state =
  props :: metrics
  lastUpdate :: int

text \<open>
  An inbound message, decoded: its \<^verbatim>\<open>type\<close> and the fields the handler reads, \<open>None\<close> for
  one that is missing. \<^verbatim>\<open>start_time\<close> is a number of milliseconds, for which
  \<^verbatim>\<open>new Date(t).getTime()\<close> is \<open>t\<close>; \<open>m_data_summary\<close> is \<^verbatim>\<open>data.data?.summary\<close>.
\<close>

record message =
  m_type :: string
  m_data_summary :: "snapshot option"
  m_summary :: "snapshot option"
  m_start_time :: "int option"
  m_test_running :: "bool option"
  m_message :: "string option"

text \<open>
  The component's \<^verbatim>\<open>data()\<close>. \<^verbatim>\<open>Date.now()\<close> is read from a clock \<open>clock :: nat \<Rightarrow> int\<close> that
  gives the milliseconds returned by the \<open>n\<close>-th reading; \<open>clockReads\<close> counts the readings
  made so far. \<open>notified\<close> collects the texts passed to \<^verbatim>\<open>notification.show\<close>, \<open>None\<close> for
  the default text that replaces a missing or empty \<^verbatim>\<open>data.message\<close>.
\<close>

record dashboard =
  connected :: bool
  testRunning :: bool
  adapters :: "(string \<times> adapter_state) list"
  latencyData :: series_bundle
  successData :: series_bundle
  startTime :: int
  chartStartTime :: "rat option"
  totalDataPoints :: nat
  lastUpdateText :: "int option"
  notified :: "string option list"
  clockReads :: nat

definition Date_now :: "(nat \<Rightarrow> int) \<Rightarrow> dashboard \<Rightarrow> int \<times> dashboard" where
  "Date_now clock d = (clock (clockReads d), d\<lparr>clockReads := Suc (clockReads d)\<rparr>)"

definition data :: "(nat \<Rightarrow> int) \<Rightarrow> dashboard" where
  "data clock =
     \<lparr>connected = False, testRunning = True, adapters = [], latencyData = [],
      successData = [], startTime = clock 0, chartStartTime = None, totalDataPoints = 0,
      lastUpdateText = None, notified = [], clockReads = 1\<rparr>"

text \<open>\<^verbatim>\<open>v || 0\<close> on a property that may be missing, and the number a value multiplies as.\<close>

fun or0 :: "metric_value option \<Rightarrow> metric_value" where
  "or0 None = Num 0"
| "or0 (Some (Num r)) = (if r = 0 then Num 0 else Num r)"
| "or0 (Some (Flag b)) = (if b then Flag True else Num 0)"

fun ToNumber :: "metric_value \<Rightarrow> rat" where
  "ToNumber (Num r) = r"
| "ToNumber (Flag b) = (if b then 1 else 0)"

text \<open>\<^verbatim>\<open>this.latencyData[adapter]\<close> once the property has been initialised.\<close>

definition series_of :: "series_bundle \<Rightarrow> string \<Rightarrow> point list" where
  "series_of bundle adapter = (case map_of bundle adapter of None \<Rightarrow> [] | Some ps \<Rightarrow> ps)"

definition init_series :: "string \<Rightarrow> series_bundle \<Rightarrow> series_bundle" where
  "init_series adapter bundle =
     (case map_of bundle adapter of None \<Rightarrow> AList.update adapter [] bundle | Some _ \<Rightarrow> bundle)"

definition push :: "string \<Rightarrow> point \<Rightarrow> series_bundle \<Rightarrow> series_bundle" where
  "push adapter p bundle = AList.update adapter (series_of bundle adapter @ [p]) bundle"

definition shift_over :: "nat \<Rightarrow> string \<Rightarrow> series_bundle \<Rightarrow> series_bundle" where
  "shift_over maxPoints adapter bundle =
     (if length (series_of bundle adapter) > maxPoints
      then AList.update adapter (tl (series_of bundle adapter)) bundle
      else bundle)"

text \<open>
  \<^verbatim>\<open>updateChartData\<close> reads the clock once or twice: \<^verbatim>\<open>!this.chartStartTime\<close> holds for \<^verbatim>\<open>null\<close>
  and for 0, and then the epoch is set from a reading of its own, before the reading
  that gives \<^verbatim>\<open>now\<close>. The arrays are pushed to and shifted in place; the two \<^verbatim>\<open>if\<close>s on the
  lengths are independent.
\<close>

definition updateChartData :: "(nat \<Rightarrow> int) \<Rightarrow> string \<Rightarrow> metrics \<Rightarrow> dashboard \<Rightarrow> dashboard" where
  "updateChartData clock adapter m d0 =
     (let d1 = (if chartStartTime d0 = None \<or> chartStartTime d0 = Some 0
                then (case Date_now clock d0 of
                        (t, d) \<Rightarrow> d\<lparr>chartStartTime := Some (of_int t / 1000)\<rparr>)
                else d0)
      in case Date_now clock d1 of
        (t, d2) \<Rightarrow>
          (let now = of_int t / 1000;
               elapsedSeconds = now - (case chartStartTime d2 of None \<Rightarrow> 0 | Some c \<Rightarrow> c);
               latencyPoint = \<lparr>px = elapsedSeconds, py = or0 (m ''avg_latency_ms'')\<rparr>;
               successPoint = \<lparr>px = elapsedSeconds,
                               py = Num (ToNumber (or0 (m ''success_rate'')) * 100)\<rparr>;
               maxPoints = 100
           in d2\<lparr>latencyData :=
                     shift_over maxPoints adapter
                       (push adapter latencyPoint (init_series adapter (latencyData d2))),
                   successData :=
                     shift_over maxPoints adapter
                       (push adapter successPoint (init_series adapter (successData d2)))\<rparr>))"

definition merge_adapter :: "metrics \<Rightarrow> int \<Rightarrow> adapter_state option \<Rightarrow> adapter_state" where
  "merge_adapter m t old =
     \<lparr>props = ((case old of None \<Rightarrow> Map.empty | Some st \<Rightarrow> props st) ++ m)(''lastUpdate'' := None),
      lastUpdate = t\<rparr>"

fun updateAdapters :: "(nat \<Rightarrow> int) \<Rightarrow> snapshot \<Rightarrow> dashboard \<Rightarrow> dashboard" where
  "updateAdapters clock [] d = d"
| "updateAdapters clock ((adapter, m) # rest) d =
     (case Date_now clock d of
        (t, d1) \<Rightarrow>
          updateAdapters clock rest
            (updateChartData clock adapter m
               (d1\<lparr>adapters :=
                     AList.update adapter (merge_adapter m t (map_of (adapters d1) adapter))
                       (adapters d1)\<rparr>)))"

definition from_summary :: "(nat \<Rightarrow> int) \<Rightarrow> snapshot option \<Rightarrow> dashboard \<Rightarrow> dashboard" where
  "from_summary clock s d = (case s of None \<Rightarrow> d | Some summary \<Rightarrow> updateAdapters clock summary d)"

definition handleWebSocketMessage :: "(nat \<Rightarrow> int) \<Rightarrow> message \<Rightarrow> dashboard \<Rightarrow> dashboard" where
  "handleWebSocketMessage clock msg d0 =
     (case Date_now clock (d0\<lparr>totalDataPoints := totalDataPoints d0 + 1\<rparr>) of
        (t, d1) \<Rightarrow>
          (let d = d1\<lparr>lastUpdateText := Some t\<rparr>
           in if m_type msg = ''metrics_update'' then
                updateAdapters clock (case m_data_summary msg of None \<Rightarrow> [] | Some s \<Rightarrow> s) d
              else if m_type msg = ''status'' then
                from_summary clock (m_summary msg)
                  (d\<lparr>testRunning := (m_test_running msg \<noteq> Some False)\<rparr>)
              else if m_type msg = ''initial_data'' then
                from_summary clock (m_summary msg)
                  (case m_start_time msg of
                     None \<Rightarrow> d
                   | Some T \<Rightarrow> if T = 0 then d else d\<lparr>startTime := T\<rparr>)
              else if m_type msg = ''test_complete'' then
                d\<lparr>testRunning := False,
                  notified := notified d @ [if m_message msg = Some [] then None else m_message msg]\<rparr>
              else if m_type msg = ''summary'' then
                from_summary clock (m_summary msg) d
              else d))"

fun offline_each :: "string list \<Rightarrow> (string \<times> adapter_state) list \<Rightarrow> (string \<times> adapter_state) list" where
  "offline_each [] as = as"
| "offline_each (adapter # rest) as =
     offline_each rest
       (case map_of as adapter of
          None \<Rightarrow> as
        | Some st \<Rightarrow>
            AList.update adapter (st\<lparr>props := (props st)(''is_connected'' \<mapsto> Flag False)\<rparr>) as)"

definition markAdaptersOffline :: "dashboard \<Rightarrow> dashboard" where
  "markAdaptersOffline d = d\<lparr>adapters := offline_each (map fst (adapters d)) (adapters d)\<rparr>"

text \<open>
  The three callbacks \<^verbatim>\<open>mounted()\<close> registers with the service. On the typed messages
  above none of them throws; called without a message, the message handler throws
  when it reads \<^verbatim>\<open>data.type\<close>, after it has counted the message.
\<close>

datatype dashboard_cb = ConnectedHandler | DisconnectedHandler | MessageHandler

fun dashboard_call ::
  "(nat \<Rightarrow> int) \<Rightarrow> dashboard_cb \<Rightarrow> message option \<Rightarrow> dashboard \<Rightarrow> outcome \<times> dashboard" where
  "dashboard_call clock ConnectedHandler _ d = (Returned, d\<lparr>connected := True\<rparr>)"
| "dashboard_call clock DisconnectedHandler _ d =
     (Returned, markAdaptersOffline (d\<lparr>connected := False, testRunning := False\<rparr>))"
| "dashboard_call clock MessageHandler None d =
     (case Date_now clock (d\<lparr>totalDataPoints := totalDataPoints d + 1\<rparr>) of
        (t, d1) \<Rightarrow> (Threw, d1\<lparr>lastUpdateText := Some t\<rparr>))"
| "dashboard_call clock MessageHandler (Some msg) d = (Returned, handleWebSocketMessage clock msg d)"

definition mounted :: "dashboard_cb service \<Rightarrow> dashboard_cb service" where
  "mounted s =
     on ''message'' MessageHandler
       (on ''disconnected'' DisconnectedHandler
          (on ''connected'' ConnectedHandler (connect s)))"

section \<open>RenderScheduler: the chart panel (\<^verbatim>\<open>component/LatencyChart.js\<close>)\<close>

text \<open>
  The panel receives a bundle of series as its \<^verbatim>\<open>chartData\<close> prop. Its watcher computes a
  fingerprint of the bundle and queues a rebuild of the chart (\<^verbatim>\<open>$nextTick\<close> with
  \<^verbatim>\<open>initChart\<close>) only when the fingerprint differs from the stored one. \<open>nextTick\<close> lists
  the bundles for which a rebuild has been queued. The status texts of the source are
  the constructors of \<open>chart_status\<close>.
\<close>

datatype chart_status = AwaitingData | UpdatingChart | ChartReady | NoValidData | InitFailed





subsection \<open>\<^verbatim>\<open>JSON.stringify\<close> on the fingerprinted object\<close>














subsection \<open>The fingerprint and the watcher\<close>





section \<open>PresentationState: the adapter card (\<^verbatim>\<open>src/unnamed/part_002\<close>)\<close>

text \<open>
  The declarative colour configuration of a metric, as \<^verbatim>\<open>config/adapter.js\<close> writes it:
  a \<^verbatim>\<open>color\<close> object with a \<^verbatim>\<open>type\<close> and, by type, a \<^verbatim>\<open>value\<close>, a list of \<^verbatim>\<open>conditions\<close> or
  a list of \<^verbatim>\<open>thresholds\<close>; and beside it an optional pair of \<^verbatim>\<open>thresholds\<close> \<^verbatim>\<open>{good, warning}\<close>.
\<close>

record condition =
  c_condition :: string
  c_value :: rat
  c_class :: string

record threshold =
  t_min :: rat
  t_class :: string

record color_config =
  color_type :: string
  color_value :: string
  color_conditions :: "condition list"
  color_thresholds :: "threshold list"

record levels =
  good :: rat
  warning :: rat

record metric_config =
  mc_color :: "color_config option"
  mc_thresholds :: "levels option"

record adapter_config =
  cfg_metrics :: "(string \<rightharpoonup> metric_config) option"

text \<open>\<^verbatim>\<open>this.config?.metrics?.[metricKey]\<close>\<close>

definition config_metric :: "adapter_config option \<Rightarrow> string \<Rightarrow> metric_config option" where
  "config_metric config metricKey =
     (case config of
        None \<Rightarrow> None
      | Some c \<Rightarrow> (case cfg_metrics c of None \<Rightarrow> None | Some ms \<Rightarrow> ms metricKey))"

text \<open>
  The \<^verbatim>\<open>switch\<close> on the comparator. The relational operators compare numbers (a boolean
  counts as 0 or 1); \<^verbatim>\<open>===\<close> holds between a number and the same number only.
\<close>

definition meetsCondition :: "metric_value \<Rightarrow> condition \<Rightarrow> bool" where
  "meetsCondition v c =
     (if c_condition c = ''>'' then ToNumber v > c_value c
      else if c_condition c = ''>='' then ToNumber v \<ge> c_value c
      else if c_condition c = ''<'' then ToNumber v < c_value c
      else if c_condition c = ''<='' then ToNumber v \<le> c_value c
      else if c_condition c = ''='' \<or> c_condition c = ''==='' then v = Num (c_value c)
      else False)"

fun for_conditions :: "metric_value \<Rightarrow> condition list \<Rightarrow> string option" where
  "for_conditions v [] = None"
| "for_conditions v (c # rest) =
     (if meetsCondition v c then Some (c_class c) else for_conditions v rest)"

fun for_thresholds :: "metric_value \<Rightarrow> threshold list \<Rightarrow> string option" where
  "for_thresholds v [] = None"
| "for_thresholds v (t # rest) =
     (if ToNumber v \<ge> t_min t then Some (t_class t) else for_thresholds v rest)"

definition getMetricClass :: "metrics \<Rightarrow> adapter_config option \<Rightarrow> string \<Rightarrow> string" where
  "getMetricClass adapterData config metricKey =
     (let v = or0 (adapterData metricKey)
      in case config_metric config metricKey of
           None \<Rightarrow> []
         | Some metricConfig \<Rightarrow>
             (case mc_color metricConfig of
                None \<Rightarrow> []
              | Some colorConfig \<Rightarrow>
                  (case (if color_type colorConfig = ''conditional''
                         then for_conditions v (color_conditions colorConfig) else None) of
                     Some cls \<Rightarrow> cls
                   | None \<Rightarrow>
                       if color_type colorConfig = ''static'' then color_value colorConfig
                       else (case (if color_type colorConfig = ''threshold''
                                   then for_thresholds v (color_thresholds colorConfig)
                                   else None) of
                               Some cls \<Rightarrow> cls
                             | None \<Rightarrow>
                                 (case mc_thresholds metricConfig of
                                    Some th \<Rightarrow>
                                      if ToNumber v \<le> good th then ''text-success''
                                      else if ToNumber v \<le> warning th then ''text-warning''
                                      else ''text-danger''
                                  | None \<Rightarrow> [])))))"

definition latencyClass :: "metrics \<Rightarrow> adapter_config option \<Rightarrow> string" where
  "latencyClass adapterData config =
     (let latency = or0 (adapterData ''avg_latency_ms'')
      in case (case config_metric config ''avg_latency_ms'' of
                 None \<Rightarrow> None | Some mc \<Rightarrow> mc_thresholds mc) of
           Some th \<Rightarrow>
             if ToNumber latency \<le> good th then ''text-success''
             else if ToNumber latency \<le> warning th then ''text-warning''
             else ''text-danger''
         | None \<Rightarrow>
             if ToNumber latency < 50 then ''text-success''
             else if ToNumber latency < 100 then ''text-warning''
             else ''text-danger'')"

subsection \<open>The priority order as the specification words it\<close>

text \<open>
  Four rule categories, each of which either decides the class or does not apply:
  the static colour, the conditional ladder (first matching comparator), the threshold
  ladder (first minimum the value reaches, in the listed order) and the fallback on the
  metric's \<^verbatim>\<open>{good, warning}\<close> pair. \<open>priority_class\<close> consults them in the order of the
  specification and stops at the first that decides.
\<close>

definition static_rule :: "color_config \<Rightarrow> string option" where
  "static_rule cc = (if color_type cc = ''static'' then Some (color_value cc) else None)"

definition conditional_ladder :: "metric_value \<Rightarrow> color_config \<Rightarrow> string option" where
  "conditional_ladder v cc =
     (if color_type cc = ''conditional''
      then map_option c_class (find (meetsCondition v) (color_conditions cc)) else None)"

definition threshold_ladder :: "metric_value \<Rightarrow> color_config \<Rightarrow> string option" where
  "threshold_ladder v cc =
     (if color_type cc = ''threshold''
      then map_option t_class (find (\<lambda>t. t_min t \<le> ToNumber v) (color_thresholds cc)) else None)"

definition default_fallback :: "metric_value \<Rightarrow> metric_config \<Rightarrow> string" where
  "default_fallback v mc =
     (case mc_thresholds mc of
        None \<Rightarrow> []
      | Some th \<Rightarrow>
          if ToNumber v \<le> good th then ''text-success''
          else if ToNumber v \<le> warning th then ''text-warning''
          else ''text-danger'')"

definition priority_class :: "metric_value \<Rightarrow> metric_config \<Rightarrow> color_config \<Rightarrow> string" where
  "priority_class v mc cc =
     (case static_rule cc of
        Some cls \<Rightarrow> cls
      | None \<Rightarrow>
          (case conditional_ladder v cc of
             Some cls \<Rightarrow> cls
           | None \<Rightarrow>
               (case threshold_ladder v cc of
                  Some cls \<Rightarrow> cls
                | None \<Rightarrow> default_fallback v mc)))"

section \<open>The class-based dashboard (\<^verbatim>\<open>market/monitor/frontend/dashboard.js\<close>)\<close>

text \<open>
  \<^verbatim>\<open>MarketDashboard\<close> keeps both series of an adapter in one \<^verbatim>\<open>dataHistory\<close> entry and
  tests the length of the latency series only before it shifts both. The charts and
  the DOM it writes to are left out.
\<close>

record history =
  h_latency :: "point list"
  h_success :: "point list"

record market_dashboard =
  dataHistory :: "(string \<times> history) list"
  md_chartStartTime :: "rat option"
  lastSummary :: "snapshot option"
  md_clockReads :: nat

definition market_dashboard_new :: market_dashboard where
  "market_dashboard_new =
     \<lparr>dataHistory = [], md_chartStartTime = None, lastSummary = None, md_clockReads = 0\<rparr>"

definition md_Date_now :: "(nat \<Rightarrow> int) \<Rightarrow> market_dashboard \<Rightarrow> int \<times> market_dashboard" where
  "md_Date_now clock d = (clock (md_clockReads d), d\<lparr>md_clockReads := Suc (md_clockReads d)\<rparr>)"

fun charts_forEach :: "rat \<Rightarrow> snapshot \<Rightarrow> (string \<times> history) list \<Rightarrow> (string \<times> history) list" where
  "charts_forEach elapsed [] dh = dh"
| "charts_forEach elapsed ((adapter, m) # rest) dh =
     (let latency = or0 (m ''avg_latency_ms'');
          successRate = ToNumber (or0 (m ''success_rate'')) * 100;
          h0 = (case map_of dh adapter of
                  None \<Rightarrow> \<lparr>h_latency = [], h_success = []\<rparr>
                | Some h \<Rightarrow> h);
          h1 = h0\<lparr>h_latency := h_latency h0 @ [\<lparr>px = elapsed, py = latency\<rparr>],
                  h_success := h_success h0 @ [\<lparr>px = elapsed, py = Num successRate\<rparr>]\<rparr>;
          h2 = (if length (h_latency h1) > 100
                then h1\<lparr>h_latency := tl (h_latency h1), h_success := tl (h_success h1)\<rparr>
                else h1)
      in charts_forEach elapsed rest (AList.update adapter h2 dh))"

definition updateCharts :: "(nat \<Rightarrow> int) \<Rightarrow> snapshot \<Rightarrow> market_dashboard \<Rightarrow> market_dashboard" where
  "updateCharts clock summary d0 =
     (let d1 = (if md_chartStartTime d0 = None \<or> md_chartStartTime d0 = Some 0
                then (case md_Date_now clock d0 of
                        (t, d) \<Rightarrow> d\<lparr>md_chartStartTime := Some (of_int t / 1000)\<rparr>)
                else d0)
      in case md_Date_now clock d1 of
        (t, d2) \<Rightarrow>
          (let now = of_int t / 1000;
               elapsed = now - (case md_chartStartTime d2 of None \<Rightarrow> 0 | Some c \<Rightarrow> c)
           in d2\<lparr>dataHistory := charts_forEach elapsed summary (dataHistory d2)\<rparr>))"

text \<open>
  The summary \<^verbatim>\<open>updateAdaptersToOffline\<close> builds and hands to \<^verbatim>\<open>updateDashboard\<close>, which
  renders the cards and the table from it and passes it on to \<^verbatim>\<open>updateCharts\<close>. Its
  \<^verbatim>\<open>last_update\<close> property, a time string, is left out.
\<close>

definition offline_metrics :: metrics where
  "offline_metrics =
     [''avg_latency_ms'' \<mapsto> Num 0, ''success_rate'' \<mapsto> Num 0,
      ''messages_received'' \<mapsto> Num 0, ''is_connected'' \<mapsto> Flag False]"

definition offlineSummary :: "snapshot option \<Rightarrow> snapshot" where
  "offlineSummary cached =
     (let adapters_list =
            (case cached of
               None \<Rightarrow> [''binance'', ''polymarket'']
             | Some s \<Rightarrow> if length s > 0 then map fst s else [''binance'', ''polymarket''])
      in fold (\<lambda>adapter acc. AList.update adapter offline_metrics acc) adapters_list [])"

definition updateAdaptersToOffline :: "(nat \<Rightarrow> int) \<Rightarrow> market_dashboard \<Rightarrow> market_dashboard" where
  "updateAdaptersToOffline clock d = updateCharts clock (offlineSummary (lastSummary d)) d"

section \<open>Notions used in the statements\<close>

text \<open>What pushing a point and then shifting once over 100 points does to one series.\<close>

definition append_capped :: "point \<Rightarrow> point list \<Rightarrow> point list" where
  "append_capped p ps = (if length (ps @ [p]) > 100 then tl (ps @ [p]) else ps @ [p])"

text \<open>
  The \<^verbatim>\<open>elapsedSeconds\<close> that \<^verbatim>\<open>updateChartData\<close> computes in a state, and the two points it
  builds from it.
\<close>

definition elapsed :: "(nat \<Rightarrow> int) \<Rightarrow> dashboard \<Rightarrow> rat" where
  "elapsed clock d =
     (case chartStartTime d of
        None \<Rightarrow> of_int (clock (Suc (clockReads d))) / 1000 - of_int (clock (clockReads d)) / 1000
      | Some c \<Rightarrow>
          if c = 0
          then of_int (clock (Suc (clockReads d))) / 1000 - of_int (clock (clockReads d)) / 1000
          else of_int (clock (clockReads d)) / 1000 - c)"

definition latency_point :: "(nat \<Rightarrow> int) \<Rightarrow> metrics \<Rightarrow> dashboard \<Rightarrow> point" where
  "latency_point clock m d = \<lparr>px = elapsed clock d, py = or0 (m ''avg_latency_ms'')\<rparr>"

definition success_point :: "(nat \<Rightarrow> int) \<Rightarrow> metrics \<Rightarrow> dashboard \<Rightarrow> point" where
  "success_point clock m d =
     \<lparr>px = elapsed clock d, py = Num (ToNumber (or0 (m ''success_rate'')) * 100)\<rparr>"

definition bounded :: "series_bundle \<Rightarrow> bool" where
  "bounded sb \<longleftrightarrow> (\<forall>a ps. map_of sb a = Some ps \<longrightarrow> length ps \<le> 100)"

definition lockstep :: "dashboard \<Rightarrow> bool" where
  "lockstep d \<longleftrightarrow>
     (\<forall>a. map_option length (map_of (latencyData d) a) =
          map_option length (map_of (successData d) a))"

definition series_inv :: "dashboard \<Rightarrow> bool" where
  "series_inv d \<longleftrightarrow> bounded (latencyData d) \<and> bounded (successData d) \<and> lockstep d"

definition history_inv :: "(string \<times> history) list \<Rightarrow> bool" where
  "history_inv dh \<longleftrightarrow>
     (\<forall>a h. map_of dh a = Some h \<longrightarrow>
        length (h_latency h) \<le> 100 \<and> length (h_success h) = length (h_latency h))"

text \<open>A sequence of snapshot merges, on either dashboard.\<close>

definition merges :: "(nat \<Rightarrow> int) \<Rightarrow> snapshot list \<Rightarrow> dashboard \<Rightarrow> dashboard" where
  "merges clock snapshots d = foldl (\<lambda>d s. updateAdapters clock s d) d snapshots"

definition md_merges :: "(nat \<Rightarrow> int) \<Rightarrow> snapshot list \<Rightarrow> market_dashboard \<Rightarrow> market_dashboard" where
  "md_merges clock snapshots d = foldl (\<lambda>d s. updateCharts clock s d) d snapshots"



section \<open>Concrete inputs\<close>

text \<open>
  A service with the same callback registered twice and one callback that throws; a
  service whose retry budget is spent.
\<close>

definition demo_call :: "nat \<Rightarrow> string option \<Rightarrow> nat \<Rightarrow> outcome \<times> nat" where
  "demo_call cb d a = (if cb = 2 then (Threw, a + 10) else (Returned, a + 1))"

definition demo_service :: "nat service" where
  "demo_service = on ''message'' 1 (on ''message'' 2 (on ''message'' 1 createWebSocketService))"

definition exhausted_service :: "nat service" where
  "exhausted_service = demo_service\<lparr>ws := Some CLOSED, reconnectAttempts := 5\<rparr>"

text \<open>
  A clock that stands at 1005 s while the first message is handled and at 1008 s from
  then on, the snapshot of the specification's scenario, and the two messages that
  carry it.
\<close>

definition demo_clock :: "nat \<Rightarrow> int" where
  "demo_clock n = (if n < 5 then 1005000 else 1008000)"

definition demo_metrics :: metrics where
  "demo_metrics =
     [''avg_latency_ms'' \<mapsto> Num 10, ''success_rate'' \<mapsto> Num 1, ''is_connected'' \<mapsto> Flag True]"

definition demo_snapshot :: snapshot where
  "demo_snapshot = [(''binance'', demo_metrics)]"

definition initial_data_msg :: message where
  "initial_data_msg =
     \<lparr>m_type = ''initial_data'', m_data_summary = None, m_summary = Some demo_snapshot,
      m_start_time = Some 1000000, m_test_running = None, m_message = None\<rparr>"

definition summary_msg :: message where
  "summary_msg =
     \<lparr>m_type = ''summary'', m_data_summary = None, m_summary = Some demo_snapshot,
      m_start_time = None, m_test_running = None, m_message = None\<rparr>"

definition demo_parse :: "string \<Rightarrow> message option" where
  "demo_parse raw =
     (if raw = ''initial_data'' then Some initial_data_msg
      else if raw = ''summary'' then Some summary_msg
      else None)"

definition after_initial :: dashboard where
  "after_initial = handleWebSocketMessage demo_clock initial_data_msg (data demo_clock)"






text \<open>A dashboard whose two series for \<^verbatim>\<open>binance\<close> hold 100 points each.\<close>

definition full_series :: "point list" where
  "full_series = map (\<lambda>i. \<lparr>px = of_nat i, py = Num 1\<rparr>) [0 ..< 100]"

definition full_dashboard :: dashboard where
  "full_dashboard =
     (data demo_clock)\<lparr>latencyData := [(''binance'', full_series)],
                       successData := [(''binance'', full_series)],
                       chartStartTime := Some 1000\<rparr>"

text \<open>Four metrics of the \<^verbatim>\<open>binance\<close> entry of \<^verbatim>\<open>config/adapter.js\<close>, and values for them.\<close>

definition static_color :: color_config where
  "static_color =
     \<lparr>color_type = ''static'', color_value = ''text-success'', color_conditions = [],
      color_thresholds = []\<rparr>"

definition ladder_color :: color_config where
  "ladder_color =
     \<lparr>color_type = ''threshold'', color_value = [], color_conditions = [],
      color_thresholds =
        [\<lparr>t_min = 99 / 100, t_class = ''badge bg-success''\<rparr>,
         \<lparr>t_min = 95 / 100, t_class = ''badge bg-warning''\<rparr>,
         \<lparr>t_min = 0, t_class = ''badge bg-danger''\<rparr>]\<rparr>"

definition warnings_color :: color_config where
  "warnings_color =
     \<lparr>color_type = ''conditional'', color_value = [],
      color_conditions =
        [\<lparr>c_condition = ''>'', c_value = 0, c_class = ''text-warning''\<rparr>,
         \<lparr>c_condition = ''='', c_value = 0, c_class = ''text-muted''\<rparr>],
      color_thresholds = []\<rparr>"

definition binance_config :: adapter_config where
  "binance_config =
     \<lparr>cfg_metrics = Some
        [''avg_latency_ms'' \<mapsto> \<lparr>mc_color = None, mc_thresholds = Some \<lparr>good = 50, warning = 100\<rparr>\<rparr>,
         ''validations_success'' \<mapsto> \<lparr>mc_color = Some static_color, mc_thresholds = None\<rparr>,
         ''validation_success_rate'' \<mapsto> \<lparr>mc_color = Some ladder_color, mc_thresholds = None\<rparr>,
         ''warnings'' \<mapsto> \<lparr>mc_color = Some warnings_color, mc_thresholds = None\<rparr>]\<rparr>"

definition binance_data :: metrics where
  "binance_data =
     [''avg_latency_ms'' \<mapsto> Num 72, ''validations_success'' \<mapsto> Num 40,
      ''validation_success_rate'' \<mapsto> Num (97 / 100), ''warnings'' \<mapsto> Num 3]"

section \<open>Properties of the event system\<close>

subsection \<open>\<^verbatim>\<open>indexOf\<close>, \<^verbatim>\<open>splice\<close> and \<^verbatim>\<open>off\<close>\<close>

lemma indexOf_ge: "indexOf xs v \<ge> -1"
  by (induction xs) (auto simp: Let_def)

lemma indexOf_absent: "indexOf xs v = -1 \<longleftrightarrow> v \<notin> set xs"
proof (induction xs)
  case Nil show ?case by simp
next
  case (Cons x xs)
  have "indexOf xs v \<ge> -1" by (rule indexOf_ge)
  with Cons show ?case by (auto simp: Let_def)
qed

lemma splice1_indexOf: "v \<in> set xs \<Longrightarrow> splice1 xs (nat (indexOf xs v)) = remove1 v xs"
proof (induction xs)
  case Nil then show ?case by simp
next
  case (Cons x xs)
  show ?case
  proof (cases "x = v")
    case True then show ?thesis by (simp add: splice1_def)
  next
    case False
    with Cons.prems have mem: "v \<in> set xs" by simp
    then have ne: "indexOf xs v \<noteq> -1" by (simp add: indexOf_absent)
    have ge: "indexOf xs v \<ge> -1" by (rule indexOf_ge)
    from ne ge have nn: "indexOf xs v \<ge> 0" by linarith
    then have "nat (indexOf xs v + 1) = Suc (nat (indexOf xs v))" by linarith
    with False ne Cons.IH [OF mem] show ?thesis
      by (simp add: splice1_def Let_def)
  qed
qed

lemma off_registered:
  "listeners s event = Some callbacks \<Longrightarrow> h \<in> set callbacks \<Longrightarrow>
   off event h s = s\<lparr>listeners := (listeners s)(event \<mapsto> remove1 h callbacks)\<rparr>"
proof -
  assume l: "listeners s event = Some callbacks" and m: "h \<in> set callbacks"
  have "indexOf callbacks h \<noteq> -1" using m by (simp add: indexOf_absent)
  moreover have "indexOf callbacks h \<ge> -1" by (rule indexOf_ge)
  ultimately have "indexOf callbacks h > -1" by linarith
  then show ?thesis using l m by (simp add: off_def Let_def splice1_indexOf)
qed

lemma off_unregistered:
  "listeners s event = Some callbacks \<Longrightarrow> h \<notin> set callbacks \<Longrightarrow> off event h s = s"
  by (simp add: off_def Let_def indexOf_absent [symmetric])

lemma off_unknown_event: "listeners s event = None \<Longrightarrow> off event h s = s"
  by (simp add: off_def)

subsection \<open>\<^verbatim>\<open>emit\<close> calls every registered callback\<close>

lemma forEach_callback_fold:
  "forEach_callback call d cbs a = fold (\<lambda>cb a. snd (call cb d a)) cbs a"
proof (induction cbs arbitrary: a)
  case Nil show ?case by simp
next
  case (Cons cb cbs)
  obtain r a' where c: "call cb d a = (r, a')" by (cases "call cb d a")
  show ?case using Cons.IH [of a'] c by (cases r) simp_all
qed

lemma forEach_callback_traced:
  "forEach_callback (traced call) d cbs (tr, a) =
   (tr @ map (\<lambda>cb. (cb, d)) cbs, forEach_callback call d cbs a)"
proof (induction cbs arbitrary: tr a)
  case Nil show ?case by simp
next
  case (Cons cb cbs)
  obtain r a' where c: "call cb d a = (r, a')" by (cases "call cb d a")
  show ?case using Cons.IH [of "tr @ [(cb, d)]" a'] c by (cases r) (simp_all add: traced_def)
qed

lemma count_list_remove1:
  "count_list (remove1 h xs) g = (if g = h \<and> h \<in> set xs then count_list xs g - 1 else count_list xs g)"
  by (induction xs) auto

lemma count_map_pair: "count_list (map (\<lambda>cb. (cb, d)) cbs) (h, d) = count_list cbs h"
  by (induction cbs) auto

lemma demo_listeners: "listeners demo_service ''message'' = Some [1, 2, 1]"
  by (simp add: demo_service_def on_def createWebSocketService_def)

lemma demo_listeners_none: "listeners demo_service ''error'' = None"
  by (simp add: demo_service_def on_def createWebSocketService_def)

text \<open>
  Claim C10. \<^verbatim>\<open>off(event, handler)\<close> removes at most one registration of the handler: it
  removes the first one. For a handler registered \<open>n \<ge> 2\<close> times for an event, after
  one \<^verbatim>\<open>off\<close> the listener list is the old one without the first occurrence, it holds
  the handler \<open>n - 1\<close> times, and an \<^verbatim>\<open>emit\<close> of the event invokes the handler
  \<open>n - 1\<close> times. \<^verbatim>\<open>off\<close> for a handler that is not registered, or for an event without
  listeners, leaves the service as it is.
\<close>

theorem off_removes_one_registration:
  "(listeners s event = Some callbacks \<and> count_list callbacks h = n \<and> 2 \<le> n \<longrightarrow>
      listeners (off event h s) event = Some (remove1 h callbacks) \<and>
      count_list (remove1 h callbacks) h = n - 1 \<and>
      count_list (fst (emit (traced call) (off event h s) event d ([], a))) (h, d) = n - 1) \<and>
   (listeners s event = Some callbacks \<and> h \<notin> set callbacks \<longrightarrow> off event h s = s) \<and>
   (listeners s event = None \<longrightarrow> off event h s = s)"
proof (intro conjI impI)
  assume A: "listeners s event = Some callbacks \<and> count_list callbacks h = n \<and> 2 \<le> n"
  then have "count_list callbacks h > 0" by simp
  then have m: "h \<in> set callbacks" using count_list_0_iff [of callbacks h] by fastforce
  from A have l: "listeners s event = Some callbacks" by simp
  show 1: "listeners (off event h s) event = Some (remove1 h callbacks)"
    by (simp add: off_registered [OF l m])
  show 2: "count_list (remove1 h callbacks) h = n - 1"
    using A m by (simp add: count_list_remove1)
  show "count_list (fst (emit (traced call) (off event h s) event d ([], a))) (h, d) = n - 1"
    using 1 2 by (simp add: emit_def forEach_callback_traced count_map_pair)
next
  assume "listeners s event = Some callbacks \<and> h \<notin> set callbacks"
  then show "off event h s = s" by (simp add: off_unregistered)
next
  assume "listeners s event = None"
  then show "off event h s = s" by (rule off_unknown_event)
qed

theorem off_removes_one_registration_witness:
  "listeners demo_service ''message'' = Some [1, 2, 1] \<and> count_list [1, 2, 1] (1::nat) = 2 \<and>
   listeners (off ''message'' 1 demo_service) ''message'' = Some [2, 1] \<and>
   count_list (fst (emit (traced demo_call) (off ''message'' 1 demo_service) ''message''
      (Some ''m'') ([], 0))) (1, Some ''m'') = 1 \<and>
   (3::nat) \<notin> set [1, 2, 1] \<and> off ''message'' 3 demo_service = demo_service \<and>
   listeners demo_service ''error'' = None \<and> off ''error'' 1 demo_service = demo_service"
  using off_removes_one_registration [of demo_service "''message''" "[1, 2, 1]" 1 2 demo_call "Some ''m''" 0]
    off_removes_one_registration [of demo_service "''message''" "[1, 2, 1]" 3 0 demo_call "Some ''m''" 0]
    off_removes_one_registration [of demo_service "''error''" "[]" 1 0 demo_call "Some ''m''" 0]
  by (simp add: demo_listeners demo_listeners_none)

text \<open>
  Claim C8. An event delivered to several registered handlers reaches every one of
  them, in registration order and with the same data, whatever each handler does:
  a handler that throws does not keep the later ones from being invoked. The state the
  handlers leave is the composition of what each of them did.
\<close>

theorem emit_isolates_handlers:
  "listeners s event = Some callbacks \<Longrightarrow>
   emit (traced call) s event d ([], a) =
     (map (\<lambda>cb. (cb, d)) callbacks, fold (\<lambda>cb a. snd (call cb d a)) callbacks a)"
  by (simp add: emit_def forEach_callback_traced forEach_callback_fold [symmetric])

theorem emit_isolates_handlers_witness:
  "listeners demo_service ''message'' = Some [1, 2, 1] \<and>
   fst (demo_call 2 (Some ''m'') 0) = Threw \<and>
   emit (traced demo_call) demo_service ''message'' (Some ''m'') ([], 0) =
     ([(1, Some ''m''), (2, Some ''m''), (1, Some ''m'')], 12)"
  using emit_isolates_handlers [OF demo_listeners, of demo_call "Some ''m''" 0]
  by (simp add: demo_listeners demo_call_def)

section \<open>Reconnection\<close>

lemma reconnect_delay_mono: "j \<le> k \<Longrightarrow> reconnect_delay j \<le> reconnect_delay k"
  by (simp add: reconnect_delay_def min_def)

lemma reconnect_delay_cap: "reconnect_delay k \<le> 30000"
  by (simp add: reconnect_delay_def)

lemma onclose_within_budget:
  "reconnectAttempts (fst sa) < maxReconnectAttempts \<Longrightarrow>
   reconnectAttempts (fst (onclose call sa)) = reconnectAttempts (fst sa) + 1 \<and>
   timers (fst (onclose call sa)) =
     timers (fst sa) @ [Reconnect (reconnect_delay (reconnectAttempts (fst sa) + 1))]"
  by (simp add: onclose_def set_readyState_def Let_def split: option.splits)

lemma onclose_exhausted:
  "maxReconnectAttempts \<le> reconnectAttempts (fst sa) \<Longrightarrow>
   reconnectAttempts (fst (onclose call sa)) = reconnectAttempts (fst sa) \<and>
   timers (fst (onclose call sa)) = timers (fst sa)"
  by (simp add: onclose_def set_readyState_def Let_def split: option.splits)

lemma onopen_resets:
  "reconnectAttempts (fst (onopen call sa)) = 0 \<and>
   timers (fst (onopen call sa)) = timers (fst sa) @ [RequestInitialData 1000]"
  by (simp add: onopen_def set_readyState_def Let_def split: option.splits)

lemma onmessage_keeps_service: "fst (onmessage JSON_parse call event_data sa) = fst sa"
  by (simp add: onmessage_def split: option.splits)

lemma onerror_keeps_service: "fst (onerror call e sa) = fst sa"
  by (simp add: onerror_def)

lemma ws_step_exhausted:
  "maxReconnectAttempts \<le> reconnectAttempts (fst sa) \<Longrightarrow> ev \<noteq> Open \<Longrightarrow>
   reconnectAttempts (fst (ws_step JSON_parse call sa ev)) = reconnectAttempts (fst sa) \<and>
   timers (fst (ws_step JSON_parse call sa ev)) = timers (fst sa)"
  by (cases ev)
     (simp_all add: onclose_exhausted onmessage_keeps_service onerror_keeps_service
        connect_def disconnect_def requestInitialData_def send_def split: option.splits)

lemma ws_run_exhausted:
  "maxReconnectAttempts \<le> reconnectAttempts (fst sa) \<Longrightarrow> Open \<notin> set evs \<Longrightarrow>
   reconnectAttempts (fst (ws_run JSON_parse call sa evs)) = reconnectAttempts (fst sa) \<and>
   timers (fst (ws_run JSON_parse call sa evs)) = timers (fst sa)"
proof (induction evs arbitrary: sa)
  case Nil
  show ?case by (simp add: ws_run_def)
next
  case (Cons ev evs)
  from Cons.prems have ne: "ev \<noteq> Open" and rest: "Open \<notin> set evs" by auto
  note st = ws_step_exhausted [OF Cons.prems(1) ne, of JSON_parse call]
  from st Cons.prems(1)
  have "maxReconnectAttempts \<le> reconnectAttempts (fst (ws_step JSON_parse call sa ev))" by simp
  from Cons.IH [OF this rest] st show ?case by (simp add: ws_run_def)
qed

lemma closes_schedule:
  "timers (fst (ws_run JSON_parse call sa (replicate k Close))) =
   timers (fst sa) @
     map (\<lambda>i. Reconnect (reconnect_delay i))
       [reconnectAttempts (fst sa) + 1 ..< min (reconnectAttempts (fst sa) + k) maxReconnectAttempts + 1]"
proof (induction k arbitrary: sa)
  case 0
  show ?case by (simp add: ws_run_def)
next
  case (Suc k)
  let ?r = "reconnectAttempts (fst sa)"
  have run: "ws_run JSON_parse call sa (replicate (Suc k) Close) =
             ws_run JSON_parse call (onclose call sa) (replicate k Close)"
    by (simp add: ws_run_def)
  show ?case
  proof (cases "?r < maxReconnectAttempts")
    case True
    note oc = onclose_within_budget [OF True, of call]
    have "[?r + 1 ..< min (?r + Suc k) maxReconnectAttempts + 1] =
          (?r + 1) # [?r + 2 ..< min (?r + 1 + k) maxReconnectAttempts + 1]"
      using True by (simp add: upt_conv_Cons min_def)
    with oc Suc.IH [of "onclose call sa"] run show ?thesis by simp
  next
    case False
    then have ex: "maxReconnectAttempts \<le> ?r" by simp
    note oc = onclose_exhausted [OF ex, of call]
    from ex have "[?r + 1 ..< min (?r + Suc k) maxReconnectAttempts + 1] = []"
      and "[?r + 1 ..< min (?r + k) maxReconnectAttempts + 1] = []" by simp_all
    with oc Suc.IH [of "onclose call sa"] run show ?thesis by simp
  qed
qed

lemma upt_1_6: "[Suc 0 ..< 6] = [1, 2, 3, 4, 5]"
  by (simp add: upt_rec)

text \<open>
  Claim C3. The delay scheduled for reconnection attempt \<open>k\<close> is non-decreasing in \<open>k\<close> and
  at most 30000 ms; a close within the budget of 5 increments the counter and schedules
  the delay of the new count, so that closes in a row from a fresh service schedule
  3000, 6000, 9000, 12000 and 15000 ms and then nothing more. An open resets the counter,
  and the close after it schedules the base delay of 3000 ms again. Once the budget is
  spent, no sequence of events without an open schedules a reconnect or changes the
  counter, be they closes, errors, messages or calls of \<^verbatim>\<open>connect\<close> and \<^verbatim>\<open>disconnect\<close>:
  the service stays as it is until a socket made by \<^verbatim>\<open>connect\<close> opens.
\<close>

theorem reconnect_backoff:
  "(\<forall>j k. 1 \<le> j \<and> j \<le> k \<and> k \<le> maxReconnectAttempts \<longrightarrow>
      reconnect_delay j \<le> reconnect_delay k \<and> reconnect_delay k \<le> 30000) \<and>
   (reconnectAttempts (fst sa) < maxReconnectAttempts \<longrightarrow>
      reconnectAttempts (fst (onclose call sa)) = reconnectAttempts (fst sa) + 1 \<and>
      timers (fst (onclose call sa)) =
        timers (fst sa) @ [Reconnect (reconnect_delay (reconnectAttempts (fst sa) + 1))]) \<and>
   (reconnectAttempts (fst sa) = 0 \<longrightarrow>
      timers (fst (ws_run JSON_parse call sa (replicate n Close))) =
        timers (fst sa) @ map (\<lambda>k. Reconnect (3000 * k)) [1 ..< min n 5 + 1]) \<and>
   reconnectAttempts (fst (onopen call sa)) = 0 \<and>
   timers (fst (onclose call (onopen call sa))) =
     timers (fst sa) @ [RequestInitialData 1000, Reconnect 3000] \<and>
   (maxReconnectAttempts \<le> reconnectAttempts (fst sa) \<and> Open \<notin> set evs \<longrightarrow>
      timers (fst (ws_run JSON_parse call sa evs)) = timers (fst sa) \<and>
      reconnectAttempts (fst (ws_run JSON_parse call sa evs)) = reconnectAttempts (fst sa))"
proof (intro conjI allI impI)
  fix j k :: nat
  assume "1 \<le> j \<and> j \<le> k \<and> k \<le> maxReconnectAttempts"
  then show "reconnect_delay j \<le> reconnect_delay k" by (simp add: reconnect_delay_mono)
  show "reconnect_delay k \<le> 30000" by (rule reconnect_delay_cap)
next
  assume "reconnectAttempts (fst sa) < maxReconnectAttempts"
  from onclose_within_budget [OF this, of call]
  show "reconnectAttempts (fst (onclose call sa)) = reconnectAttempts (fst sa) + 1"
    and "timers (fst (onclose call sa)) =
        timers (fst sa) @ [Reconnect (reconnect_delay (reconnectAttempts (fst sa) + 1))]"
    by simp_all
next
  assume z: "reconnectAttempts (fst sa) = 0"
  have "map (\<lambda>i. Reconnect (reconnect_delay i)) [1 ..< min n 5 + 1] =
        map (\<lambda>k. Reconnect (3000 * k)) [1 ..< min n 5 + 1]"
    by (rule map_cong) (auto simp: reconnect_delay_def)
  with closes_schedule [of JSON_parse call sa n] z
  show "timers (fst (ws_run JSON_parse call sa (replicate n Close))) =
        timers (fst sa) @ map (\<lambda>k. Reconnect (3000 * k)) [1 ..< min n 5 + 1]"
    by (simp add: maxReconnectAttempts_def)
next
  show "reconnectAttempts (fst (onopen call sa)) = 0" by (simp add: onopen_resets)
next
  have "reconnectAttempts (fst (onopen call sa)) < maxReconnectAttempts"
    by (simp add: onopen_resets maxReconnectAttempts_def)
  from onclose_within_budget [OF this, of call]
  show "timers (fst (onclose call (onopen call sa))) =
        timers (fst sa) @ [RequestInitialData 1000, Reconnect 3000]"
    by (simp add: onopen_resets reconnect_delay_def)
next
  assume "maxReconnectAttempts \<le> reconnectAttempts (fst sa) \<and> Open \<notin> set evs"
  then have a: "maxReconnectAttempts \<le> reconnectAttempts (fst sa)" and b: "Open \<notin> set evs"
    by simp_all
  from ws_run_exhausted [OF a b, of JSON_parse call]
  show "timers (fst (ws_run JSON_parse call sa evs)) = timers (fst sa)"
    and "reconnectAttempts (fst (ws_run JSON_parse call sa evs)) = reconnectAttempts (fst sa)"
    by simp_all
qed

theorem reconnect_backoff_witness:
  "reconnectAttempts (fst (demo_service, 0::nat)) = 0 \<and>
   reconnect_delay 1 \<le> reconnect_delay 2 \<and> reconnect_delay 2 \<le> 30000 \<and>
   timers (fst (onclose demo_call (demo_service, 0))) = [Reconnect 3000] \<and>
   timers (fst (ws_run (\<lambda>_. None) demo_call (demo_service, 0) (replicate 7 Close))) =
     [Reconnect 3000, Reconnect 6000, Reconnect 9000, Reconnect 12000, Reconnect 15000] \<and>
   maxReconnectAttempts \<le> reconnectAttempts (fst (exhausted_service, 0::nat)) \<and>
   Open \<notin> set [Close, CallConnect, Error None, Message ''x'', Close] \<and>
   timers (fst (ws_run (\<lambda>_. None) demo_call (exhausted_service, 0)
       [Close, CallConnect, Error None, Message ''x'', Close])) = [] \<and>
   reconnectAttempts (fst (onopen demo_call (exhausted_service, 0))) = 0 \<and>
   timers (fst (onclose demo_call (onopen demo_call (exhausted_service, 0)))) =
     [RequestInitialData 1000, Reconnect 3000]"
proof -
  have a0: "reconnectAttempts (fst (demo_service, 0::nat)) = 0"
    and t0: "timers (fst (demo_service, 0::nat)) = []"
    by (simp_all add: demo_service_def on_def createWebSocketService_def)
  have a5: "reconnectAttempts (fst (exhausted_service, 0::nat)) = 5"
    and t5: "timers (fst (exhausted_service, 0::nat)) = []"
    by (simp_all add: exhausted_service_def demo_service_def on_def createWebSocketService_def)
  note fresh = reconnect_backoff [of "(demo_service, 0)" demo_call "\<lambda>_. None" 7 "[]"]
  note spent = reconnect_backoff [of "(exhausted_service, 0)" demo_call "\<lambda>_. None" 0
      "[Close, CallConnect, Error None, Message ''x'', Close]"]
  from fresh [THEN conjunct1, rule_format, of 1 2]
  have "reconnect_delay 1 \<le> reconnect_delay 2 \<and> reconnect_delay 2 \<le> 30000"
    by (simp add: maxReconnectAttempts_def)
  moreover from fresh a0 t0 have "timers (fst (onclose demo_call (demo_service, 0))) = [Reconnect 3000]"
    by (simp add: maxReconnectAttempts_def reconnect_delay_def)
  moreover from fresh a0 t0
  have "timers (fst (ws_run (\<lambda>_. None) demo_call (demo_service, 0) (replicate 7 Close))) =
     [Reconnect 3000, Reconnect 6000, Reconnect 9000, Reconnect 12000, Reconnect 15000]"
    by (simp add: upt_1_6)
  moreover from spent a5 t5
  have "timers (fst (ws_run (\<lambda>_. None) demo_call (exhausted_service, 0)
       [Close, CallConnect, Error None, Message ''x'', Close])) = []"
    by (simp add: maxReconnectAttempts_def)
  moreover from spent t5
  have "reconnectAttempts (fst (onopen demo_call (exhausted_service, 0))) = 0"
    and "timers (fst (onclose demo_call (onopen demo_call (exhausted_service, 0)))) =
     [RequestInitialData 1000, Reconnect 3000]"
    by simp_all
  ultimately show ?thesis using a0 a5 by (simp add: maxReconnectAttempts_def)
qed

section \<open>Malformed payloads\<close>

lemma ws_run_append:
  "ws_run JSON_parse call sa (evs @ evs') = ws_run JSON_parse call (ws_run JSON_parse call sa evs) evs'"
  by (simp add: ws_run_def)

lemma onmessage_malformed: "JSON_parse event_data = None \<Longrightarrow> onmessage JSON_parse call event_data sa = sa"
  by (simp add: onmessage_def)

text \<open>
  Claim C6. A message whose payload does not decode is dropped: the handler returns
  the service and the panels' state as they were. No callback has run, so no
  aggregator or presentation state is changed, and the socket, the retry counter and
  the timers are untouched, so the connection is not closed. A run of the service
  over any sequence of events ends in the same state with the malformed message as
  without it.
\<close>

theorem malformed_payload_is_dropped:
  "JSON_parse event_data = None \<Longrightarrow>
   onmessage JSON_parse call event_data (s, a) = (s, a) \<and>
   ws (fst (onmessage JSON_parse call event_data (s, a))) = ws s \<and>
   ws_run JSON_parse call (s, a) (earlier @ [Message event_data] @ later) =
     ws_run JSON_parse call (s, a) (earlier @ later)"
  by (simp add: ws_run_append onmessage_malformed) (simp add: ws_run_def onmessage_malformed)

theorem malformed_payload_is_dropped_witness:
  "demo_parse ''{type:'' = None \<and>
   onmessage demo_parse (dashboard_call demo_clock) ''{type:''
     (connect (mounted createWebSocketService), after_initial) =
     (connect (mounted createWebSocketService), after_initial) \<and>
   ws (fst (onmessage demo_parse (dashboard_call demo_clock) ''{type:''
     (connect (mounted createWebSocketService), after_initial))) = Some CONNECTING \<and>
   totalDataPoints (snd (ws_run demo_parse (dashboard_call demo_clock)
     (mounted createWebSocketService, data demo_clock)
     ([Open, Message ''initial_data''] @ [Message ''{type:''] @ [Message ''summary'']))) = 2 \<and>
   ws (fst (ws_run demo_parse (dashboard_call demo_clock)
     (mounted createWebSocketService, data demo_clock)
     ([Open, Message ''initial_data''] @ [Message ''{type:''] @ [Message ''summary'']))) = Some OPEN"
proof -
  have p: "demo_parse ''{type:'' = None" by (simp add: demo_parse_def)
  have w: "ws (connect (mounted createWebSocketService)) = Some CONNECTING"
    by (simp add: mounted_def on_def connect_def createWebSocketService_def Let_def)
  have n: "totalDataPoints (snd (ws_run demo_parse (dashboard_call demo_clock)
     (mounted createWebSocketService, data demo_clock)
     ([Open, Message ''initial_data''] @ [Message ''summary'']))) = 2"
    and o: "ws (fst (ws_run demo_parse (dashboard_call demo_clock)
     (mounted createWebSocketService, data demo_clock)
     ([Open, Message ''initial_data''] @ [Message ''summary'']))) = Some OPEN"
    by code_simp+
  note i1 = malformed_payload_is_dropped [of demo_parse "''{type:''" "dashboard_call demo_clock"
      "connect (mounted createWebSocketService)" after_initial "[]" "[]"]
  note i2 = malformed_payload_is_dropped [of demo_parse "''{type:''" "dashboard_call demo_clock"
      "mounted createWebSocketService" "data demo_clock" "[Open, Message ''initial_data'']"
      "[Message ''summary'']"]
  from i1 p w have "onmessage demo_parse (dashboard_call demo_clock) ''{type:''
     (connect (mounted createWebSocketService), after_initial) =
     (connect (mounted createWebSocketService), after_initial) \<and>
   ws (fst (onmessage demo_parse (dashboard_call demo_clock) ''{type:''
     (connect (mounted createWebSocketService), after_initial))) = Some CONNECTING"
    by simp
  moreover from i2 p n o
  have "totalDataPoints (snd (ws_run demo_parse (dashboard_call demo_clock)
     (mounted createWebSocketService, data demo_clock)
     ([Open, Message ''initial_data''] @ [Message ''{type:''] @ [Message ''summary'']))) = 2 \<and>
   ws (fst (ws_run demo_parse (dashboard_call demo_clock)
     (mounted createWebSocketService, data demo_clock)
     ([Open, Message ''initial_data''] @ [Message ''{type:''] @ [Message ''summary'']))) = Some OPEN"
    by simp
  ultimately show ?thesis using p w by simp
qed

section \<open>Series buffers\<close>

subsection \<open>One series\<close>

lemma series_step:
  "map_of (shift_over 100 adapter (push adapter p (init_series adapter bundle))) =
   (map_of bundle)(adapter \<mapsto> append_capped p (series_of bundle adapter))"
  by (auto simp: shift_over_def push_def init_series_def series_of_def append_capped_def
      AList.update_conv' fun_eq_iff split: option.splits)

lemma append_capped_le: "length ps \<le> 100 \<Longrightarrow> length (append_capped p ps) \<le> 100"
  by (auto simp: append_capped_def)

lemma append_capped_full: "length ps = 100 \<Longrightarrow> append_capped p ps = tl ps @ [p]"
  by (cases ps) (simp_all add: append_capped_def)



lemma length_append_capped_eq:
  "length ps = length qs \<Longrightarrow> length (append_capped p ps) = length (append_capped q qs)"
  by (simp add: append_capped_def)

lemma series_of_Some: "map_of sb a = Some ps \<Longrightarrow> series_of sb a = ps"
  by (simp add: series_of_def)

lemma series_of_bounded: "bounded bundle \<Longrightarrow> length (series_of bundle a) \<le> 100"
  by (auto simp: bounded_def series_of_def split: option.splits)

lemma bounded_step:
  "bounded sb \<Longrightarrow> map_of sb' = (map_of sb)(a \<mapsto> append_capped p (series_of sb a)) \<Longrightarrow>
   bounded sb'"
  using series_of_bounded [of sb a] append_capped_le [of "series_of sb a" p]
  by (auto simp: bounded_def)

lemma lockstep_series_of:
  "lockstep d \<Longrightarrow> length (series_of (latencyData d) a) = length (series_of (successData d) a)"
proof -
  assume "lockstep d"
  then have "map_option length (map_of (latencyData d) a) = map_option length (map_of (successData d) a)"
    by (simp add: lockstep_def)
  then show ?thesis by (auto simp: series_of_def split: option.splits)
qed

subsection \<open>The component keeps its series bounded and in lockstep\<close>

lemma updateChartData_latency:
  "map_of (latencyData (updateChartData clock a m d)) =
     (map_of (latencyData d))(a \<mapsto> append_capped (latency_point clock m d) (series_of (latencyData d) a))"
  by (cases "chartStartTime d")
     (simp_all add: updateChartData_def Date_now_def Let_def series_step latency_point_def elapsed_def)

lemma updateChartData_success:
  "map_of (successData (updateChartData clock a m d)) =
     (map_of (successData d))(a \<mapsto> append_capped (success_point clock m d) (series_of (successData d) a))"
  by (cases "chartStartTime d")
     (simp_all add: updateChartData_def Date_now_def Let_def series_step success_point_def elapsed_def)

lemma updateChartData_inv: "series_inv d \<Longrightarrow> series_inv (updateChartData clock a m d)"
proof -
  assume inv: "series_inv d"
  then have bl: "bounded (latencyData d)" and bs: "bounded (successData d)" and ls: "lockstep d"
    by (simp_all add: series_inv_def)
  have 1: "bounded (latencyData (updateChartData clock a m d))"
    by (rule bounded_step [OF bl updateChartData_latency])
  have 2: "bounded (successData (updateChartData clock a m d))"
    by (rule bounded_step [OF bs updateChartData_success])
  have 3: "lockstep (updateChartData clock a m d)"
    unfolding lockstep_def
  proof
    fix b
    show "map_option length (map_of (latencyData (updateChartData clock a m d)) b) =
          map_option length (map_of (successData (updateChartData clock a m d)) b)"
    proof (cases "b = a")
      case True
      with length_append_capped_eq [OF lockstep_series_of [OF ls, of a]]
      show ?thesis by (simp add: updateChartData_latency updateChartData_success)
    next
      case False
      with ls show ?thesis
        by (simp add: updateChartData_latency updateChartData_success lockstep_def)
    qed
  qed
  from 1 2 3 show ?thesis by (simp add: series_inv_def)
qed

lemma series_inv_fields:
  "latencyData d' = latencyData d \<Longrightarrow> successData d' = successData d \<Longrightarrow>
   series_inv d \<Longrightarrow> series_inv d'"
  by (simp add: series_inv_def lockstep_def)

lemma updateAdapters_inv: "series_inv d \<Longrightarrow> series_inv (updateAdapters clock summary d)"
proof (induction summary arbitrary: d)
  case Nil
  then show ?case by simp
next
  case (Cons e rest)
  obtain adapter m where e: "e = (adapter, m)" by (cases e)
  let ?d1 = "snd (Date_now clock d)"
  let ?t = "fst (Date_now clock d)"
  let ?d2 = "?d1\<lparr>adapters := AList.update adapter (merge_adapter m ?t (map_of (adapters ?d1) adapter)) (adapters ?d1)\<rparr>"
  have "series_inv ?d2"
    by (rule series_inv_fields [OF _ _ Cons.prems]) (simp_all add: Date_now_def)
  then have "series_inv (updateChartData clock adapter m ?d2)" by (rule updateChartData_inv)
  then have "series_inv (updateAdapters clock rest (updateChartData clock adapter m ?d2))"
    by (rule Cons.IH)
  then show ?case by (simp add: e split_beta)
qed

lemma from_summary_inv: "series_inv d \<Longrightarrow> series_inv (from_summary clock s d)"
  by (cases s) (simp_all add: from_summary_def updateAdapters_inv)

lemma handleWebSocketMessage_inv:
  "series_inv d \<Longrightarrow> series_inv (handleWebSocketMessage clock msg d)"
proof -
  assume inv: "series_inv d"
  let ?d = "(snd (Date_now clock (d\<lparr>totalDataPoints := totalDataPoints d + 1\<rparr>)))
              \<lparr>lastUpdateText := Some (fst (Date_now clock (d\<lparr>totalDataPoints := totalDataPoints d + 1\<rparr>)))\<rparr>"
  have base: "series_inv ?d"
    by (rule series_inv_fields [OF _ _ inv]) (simp_all add: Date_now_def)
  have upd: "\<And>f. latencyData (f ?d) = latencyData ?d \<Longrightarrow> successData (f ?d) = successData ?d \<Longrightarrow>
                 series_inv (f ?d)"
    by (rule series_inv_fields [OF _ _ base])
  have a: "series_inv (?d\<lparr>testRunning := (m_test_running msg \<noteq> Some False)\<rparr>)"
    by (rule series_inv_fields [OF _ _ base]) simp_all
  have b: "series_inv (case m_start_time msg of None \<Rightarrow> ?d
             | Some T \<Rightarrow> if T = 0 then ?d else ?d\<lparr>startTime := T\<rparr>)"
    by (rule series_inv_fields [OF _ _ base]) (simp_all split: option.splits)
  have c: "series_inv (?d\<lparr>testRunning := False,
      notified := notified ?d @ [if m_message msg = Some [] then None else m_message msg]\<rparr>)"
    by (rule series_inv_fields [OF _ _ base]) simp_all
  show ?thesis
    unfolding handleWebSocketMessage_def split_beta Let_def
    using base a b c by (auto intro!: updateAdapters_inv from_summary_inv)
qed

lemma dashboard_call_inv: "series_inv d \<Longrightarrow> series_inv (snd (dashboard_call clock cb msg d))"
proof (cases cb)
  case ConnectedHandler
  assume "series_inv d"
  then show ?thesis using ConnectedHandler by (simp add: series_inv_def lockstep_def)
next
  case DisconnectedHandler
  assume "series_inv d"
  then show ?thesis using DisconnectedHandler
    by (simp add: series_inv_def lockstep_def markAdaptersOffline_def)
next
  case MessageHandler
  assume inv: "series_inv d"
  show ?thesis
  proof (cases msg)
    case None
    with inv MessageHandler show ?thesis
      by (simp add: series_inv_def lockstep_def Date_now_def)
  next
    case (Some m)
    with inv MessageHandler show ?thesis by (simp add: handleWebSocketMessage_inv)
  qed
qed

lemma forEach_callback_inv:
  assumes step: "\<And>cb a. P a \<Longrightarrow> P (snd (call cb d a))"
  shows "P a \<Longrightarrow> P (forEach_callback call d cbs a)"
proof (induction cbs arbitrary: a)
  case Nil then show ?case by simp
next
  case (Cons cb cbs)
  obtain r a' where c: "call cb d a = (r, a')" by (cases "call cb d a")
  from step [OF Cons.prems, of cb] c have "P a'" by simp
  from Cons.IH [OF this] c show ?case by (cases r) simp_all
qed

lemma emit_inv:
  assumes step: "\<And>cb d a. P a \<Longrightarrow> P (snd (call cb d a))"
  shows "P a \<Longrightarrow> P (emit call s event d a)"
  by (cases "listeners s event") (simp_all add: emit_def forEach_callback_inv [where P = P, OF step])

lemma ws_step_inv:
  assumes step: "\<And>cb d a. P a \<Longrightarrow> P (snd (call cb d a))"
  shows "P (snd sa) \<Longrightarrow> P (snd (ws_step JSON_parse call sa ev))"
proof (cases ev)
  case Open
  assume "P (snd sa)"
  then show ?thesis using Open by (simp add: onopen_def Let_def emit_inv [where P = P, OF step])
next
  case (Message raw)
  assume "P (snd sa)"
  then show ?thesis using Message
    by (simp add: onmessage_def emit_inv [where P = P, OF step] split: option.splits)
next
  case Close
  assume "P (snd sa)"
  then show ?thesis using Close by (simp add: onclose_def Let_def emit_inv [where P = P, OF step])
next
  case (Error e)
  assume "P (snd sa)"
  then show ?thesis using Error by (simp add: onerror_def emit_inv [where P = P, OF step])
qed simp_all

lemma ws_run_inv:
  assumes step: "\<And>cb d a. P a \<Longrightarrow> P (snd (call cb d a))"
  shows "P (snd sa) \<Longrightarrow> P (snd (ws_run JSON_parse call sa evs))"
proof (induction evs arbitrary: sa)
  case Nil then show ?case by (simp add: ws_run_def)
next
  case (Cons ev evs)
  from ws_step_inv [where P = P, OF step Cons.prems]
  have "P (snd (ws_step JSON_parse call sa ev))" .
  from Cons.IH [OF this] show ?case by (simp add: ws_run_def)
qed

lemma data_inv: "series_inv (data clock)"
  by (simp add: series_inv_def bounded_def lockstep_def data_def)

lemma reachable_inv:
  "series_inv (snd (ws_run JSON_parse (dashboard_call clock) (s, data clock) evs))"
  by (rule ws_run_inv [where P = series_inv]) (simp_all add: dashboard_call_inv data_inv)

lemma merges_inv: "series_inv d \<Longrightarrow> series_inv (merges clock snapshots d)"
proof (induction snapshots arbitrary: d)
  case Nil then show ?case by (simp add: merges_def)
next
  case (Cons s rest)
  from Cons.IH [OF updateAdapters_inv [OF Cons.prems, of clock s]]
  show ?case by (simp add: merges_def)
qed

subsection \<open>The class-based dashboard\<close>

lemma charts_forEach_inv: "history_inv dh \<Longrightarrow> history_inv (charts_forEach e summary dh)"
proof (induction summary arbitrary: dh)
  case Nil then show ?case by simp
next
  case (Cons entry rest)
  obtain adapter m where entry: "entry = (adapter, m)" by (cases entry)
  define h0 where "h0 = (case map_of dh adapter of
      None \<Rightarrow> \<lparr>h_latency = [], h_success = []\<rparr> | Some h \<Rightarrow> h)"
  define h1 where "h1 = h0\<lparr>h_latency := h_latency h0 @ [\<lparr>px = e, py = or0 (m ''avg_latency_ms'')\<rparr>],
      h_success := h_success h0 @ [\<lparr>px = e, py = Num (ToNumber (or0 (m ''success_rate'')) * 100)\<rparr>]\<rparr>"
  define h2 where "h2 = (if length (h_latency h1) > 100
      then h1\<lparr>h_latency := tl (h_latency h1), h_success := tl (h_success h1)\<rparr> else h1)"
  have 0: "length (h_latency h0) \<le> 100 \<and> length (h_success h0) = length (h_latency h0)"
    using Cons.prems by (auto simp: h0_def history_inv_def split: option.splits)
  then have 2: "length (h_latency h2) \<le> 100 \<and> length (h_success h2) = length (h_latency h2)"
    by (auto simp: h2_def h1_def)
  have "history_inv (AList.update adapter h2 dh)"
    using Cons.prems 2 by (auto simp: history_inv_def AList.update_conv')
  moreover have "charts_forEach e (entry # rest) dh =
      charts_forEach e rest (AList.update adapter h2 dh)"
    by (simp add: entry h0_def h1_def h2_def Let_def)
  ultimately show ?case using Cons.IH by simp
qed

lemma updateCharts_inv:
  "history_inv (dataHistory d) \<Longrightarrow> history_inv (dataHistory (updateCharts clock summary d))"
  by (simp add: updateCharts_def md_Date_now_def Let_def charts_forEach_inv)

lemma md_merges_inv:
  "history_inv (dataHistory d) \<Longrightarrow> history_inv (dataHistory (md_merges clock snapshots d))"
proof (induction snapshots arbitrary: d)
  case Nil then show ?case by (simp add: md_merges_def)
next
  case (Cons s rest)
  from Cons.IH [OF updateCharts_inv [OF Cons.prems, of clock s]]
  show ?case by (simp add: md_merges_def)
qed

lemma market_dashboard_new_inv: "history_inv (dataHistory market_dashboard_new)"
  by (simp add: history_inv_def market_dashboard_new_def)

lemma charts_forEach_full:
  "map_of dh a = Some h \<Longrightarrow> length (h_latency h) = 100 \<Longrightarrow> length (h_success h) = 100 \<Longrightarrow>
   map_of (charts_forEach e [(a, m)] dh) a =
     Some \<lparr>h_latency = tl (h_latency h) @ [\<lparr>px = e, py = or0 (m ''avg_latency_ms'')\<rparr>],
           h_success = tl (h_success h) @
             [\<lparr>px = e, py = Num (ToNumber (or0 (m ''success_rate'')) * 100)\<rparr>]\<rparr>"
  by (cases "h_latency h"; cases "h_success h") (simp_all add: Let_def AList.update_conv')

text \<open>
  Claim C1. After every sequence of snapshot merges, and in every state the component
  reaches through the service, each latency and each success series holds at most 100
  points; so does each series of the class-based dashboard. Appending to a series that
  holds 100 points drops its first point, keeps the others in order and puts the new
  point last.
\<close>

theorem series_buffer_bounded_fifo:
  "(\<forall>a ps. map_of (latencyData (merges clock snapshots (data clock))) a = Some ps \<or>
           map_of (successData (merges clock snapshots (data clock))) a = Some ps \<longrightarrow>
           length ps \<le> 100) \<and>
   (\<forall>a ps. map_of (latencyData (snd (ws_run JSON_parse (dashboard_call clock) (s, data clock) evs))) a = Some ps \<or>
           map_of (successData (snd (ws_run JSON_parse (dashboard_call clock) (s, data clock) evs))) a = Some ps \<longrightarrow>
           length ps \<le> 100) \<and>
   (\<forall>a h. map_of (dataHistory (md_merges clock snapshots market_dashboard_new)) a = Some h \<longrightarrow>
           length (h_latency h) \<le> 100 \<and> length (h_success h) \<le> 100) \<and>
   (map_of (latencyData d) adapter = Some ps \<and> length ps = 100 \<longrightarrow>
      map_of (latencyData (updateChartData clock adapter m d)) adapter =
        Some (tl ps @ [latency_point clock m d])) \<and>
   (map_of (successData d) adapter = Some qs \<and> length qs = 100 \<longrightarrow>
      map_of (successData (updateChartData clock adapter m d)) adapter =
        Some (tl qs @ [success_point clock m d])) \<and>
   (map_of dh adapter = Some h \<and> length (h_latency h) = 100 \<and> length (h_success h) = 100 \<longrightarrow>
      map_of (charts_forEach e [(adapter, m)] dh) adapter =
        Some \<lparr>h_latency = tl (h_latency h) @ [\<lparr>px = e, py = or0 (m ''avg_latency_ms'')\<rparr>],
              h_success = tl (h_success h) @
                [\<lparr>px = e, py = Num (ToNumber (or0 (m ''success_rate'')) * 100)\<rparr>]\<rparr>)"
proof (intro conjI allI impI)
  fix a ps
  assume "map_of (latencyData (merges clock snapshots (data clock))) a = Some ps \<or>
          map_of (successData (merges clock snapshots (data clock))) a = Some ps"
  with merges_inv [OF data_inv, of clock snapshots clock]
  show "length ps \<le> 100" by (auto simp: series_inv_def bounded_def)
next
  fix a ps
  assume "map_of (latencyData (snd (ws_run JSON_parse (dashboard_call clock) (s, data clock) evs))) a = Some ps \<or>
          map_of (successData (snd (ws_run JSON_parse (dashboard_call clock) (s, data clock) evs))) a = Some ps"
  with reachable_inv [of JSON_parse clock s evs]
  show "length ps \<le> 100" by (auto simp: series_inv_def bounded_def)
next
  fix a h
  assume "map_of (dataHistory (md_merges clock snapshots market_dashboard_new)) a = Some h"
  with md_merges_inv [OF market_dashboard_new_inv, of clock snapshots]
  show "length (h_latency h) \<le> 100" and "length (h_success h) \<le> 100"
    by (auto simp: history_inv_def)
next
  assume "map_of (latencyData d) adapter = Some ps \<and> length ps = 100"
  then show "map_of (latencyData (updateChartData clock adapter m d)) adapter =
        Some (tl ps @ [latency_point clock m d])"
    by (simp add: updateChartData_latency series_of_Some append_capped_full)
next
  assume "map_of (successData d) adapter = Some qs \<and> length qs = 100"
  then show "map_of (successData (updateChartData clock adapter m d)) adapter =
        Some (tl qs @ [success_point clock m d])"
    by (simp add: updateChartData_success series_of_Some append_capped_full)
next
  assume "map_of dh adapter = Some h \<and> length (h_latency h) = 100 \<and> length (h_success h) = 100"
  then show "map_of (charts_forEach e [(adapter, m)] dh) adapter =
        Some \<lparr>h_latency = tl (h_latency h) @ [\<lparr>px = e, py = or0 (m ''avg_latency_ms'')\<rparr>],
              h_success = tl (h_success h) @
                [\<lparr>px = e, py = Num (ToNumber (or0 (m ''success_rate'')) * 100)\<rparr>]\<rparr>"
    by (intro charts_forEach_full) simp_all
qed

theorem series_buffer_bounded_fifo_witness:
  "map_of (latencyData (merges demo_clock [demo_snapshot, demo_snapshot] (data demo_clock))) ''binance'' =
     Some [\<lparr>px = 0, py = Num 10\<rparr>, \<lparr>px = 3, py = Num 10\<rparr>] \<and>
   length [\<lparr>px = 0, py = Num 10\<rparr>, \<lparr>px = 3, py = Num 10\<rparr>] \<le> 100 \<and>
   map_of (latencyData full_dashboard) ''binance'' = Some full_series \<and>
   length full_series = 100 \<and> hd full_series = \<lparr>px = 0, py = Num 1\<rparr> \<and>
   map_of (latencyData (updateChartData demo_clock ''binance'' demo_metrics full_dashboard)) ''binance'' =
     Some (tl full_series @ [\<lparr>px = 5, py = Num 10\<rparr>]) \<and>
   map_of (successData (updateChartData demo_clock ''binance'' demo_metrics full_dashboard)) ''binance'' =
     Some (tl full_series @ [\<lparr>px = 5, py = Num 100\<rparr>])"
proof -
  have two: "map_of (latencyData (merges demo_clock [demo_snapshot, demo_snapshot] (data demo_clock))) ''binance'' =
     Some [\<lparr>px = 0, py = Num 10\<rparr>, \<lparr>px = 3, py = Num 10\<rparr>]"
    by code_simp
  have full: "map_of (latencyData full_dashboard) ''binance'' = Some full_series"
    "map_of (successData full_dashboard) ''binance'' = Some full_series"
    by (simp_all add: full_dashboard_def)
  have len: "length full_series = 100" by (simp add: full_series_def)
  have hd: "hd full_series = \<lparr>px = 0, py = Num 1\<rparr>" by code_simp
  have lp: "latency_point demo_clock demo_metrics full_dashboard = \<lparr>px = 5, py = Num 10\<rparr>"
    by code_simp
  have sp: "success_point demo_clock demo_metrics full_dashboard = \<lparr>px = 5, py = Num 100\<rparr>"
    by code_simp
  note inst = series_buffer_bounded_fifo [of demo_clock "[demo_snapshot, demo_snapshot]" "\<lambda>_. None"
      createWebSocketService "[]" full_dashboard "''binance''" full_series demo_metrics full_series
      "[]" "\<lparr>h_latency = [], h_success = []\<rparr>" 0]
  from inst two have "length [\<lparr>px = 0, py = Num 10\<rparr>, \<lparr>px = 3, py = Num 10\<rparr>] \<le> 100"
    by blast
  moreover from inst full len lp
  have "map_of (latencyData (updateChartData demo_clock ''binance'' demo_metrics full_dashboard)) ''binance'' =
     Some (tl full_series @ [\<lparr>px = 5, py = Num 10\<rparr>])"
    by simp
  moreover from inst full len sp
  have "map_of (successData (updateChartData demo_clock ''binance'' demo_metrics full_dashboard)) ''binance'' =
     Some (tl full_series @ [\<lparr>px = 5, py = Num 100\<rparr>])"
    by simp
  ultimately show ?thesis using two full len hd by simp
qed

section \<open>Disconnection\<close>











section \<open>Lockstep of the two series\<close>




section \<open>The render fingerprint\<close>















section \<open>The initial-data scenario\<close>








section \<open>Colour classes\<close>

lemma for_conditions_find:
  "for_conditions v cs = map_option c_class (find (meetsCondition v) cs)"
  by (induction cs) simp_all

lemma for_thresholds_find:
  "for_thresholds v ts = map_option t_class (find (\<lambda>t. t_min t \<le> ToNumber v) ts)"
  by (induction ts) simp_all

lemma getMetricClass_priority:
  "config_metric config metricKey = Some mc \<Longrightarrow> mc_color mc = Some cc \<Longrightarrow>
   getMetricClass adapterData config metricKey = priority_class (or0 (adapterData metricKey)) mc cc"
  by (simp add: getMetricClass_def priority_class_def static_rule_def conditional_ladder_def
      threshold_ladder_def default_fallback_def for_conditions_find for_thresholds_find Let_def
      split: option.splits)

lemma find_sorted_greatest:
  "sorted_wrt (\<lambda>s t. t_min t \<le> t_min s) ts \<Longrightarrow> find (\<lambda>t. t_min t \<le> v) ts = Some t \<Longrightarrow>
   u \<in> set ts \<Longrightarrow> t_min u \<le> v \<Longrightarrow> t_min u \<le> t_min t"
proof (induction ts)
  case Nil then show ?case by simp
next
  case (Cons s ts)
  show ?case
  proof (cases "t_min s \<le> v")
    case True
    with Cons.prems(2) have "t = s" by simp
    with Cons.prems(1,3) show ?thesis by auto
  next
    case False
    with Cons.prems have "find (\<lambda>t. t_min t \<le> v) ts = Some t" and "u \<in> set ts" by auto
    with Cons.IH Cons.prems show ?thesis by simp
  qed
qed

lemma latencyClass_defaults:
  "(case config_metric config ''avg_latency_ms'' of None \<Rightarrow> None | Some mc \<Rightarrow> mc_thresholds mc) = None \<Longrightarrow>
   latencyClass adapterData config =
     (if ToNumber (or0 (adapterData ''avg_latency_ms'')) < 50 then ''text-success''
      else if ToNumber (or0 (adapterData ''avg_latency_ms'')) < 100 then ''text-warning''
      else ''text-danger'')"
  by (simp add: latencyClass_def Let_def)

text \<open>
  Claim C7. For a metric with a colour configuration, \<^verbatim>\<open>getMetricClass\<close> returns what the
  rule categories give when consulted in the order static colour, conditional ladder,
  threshold ladder, fallback on the metric's \<^verbatim>\<open>{good, warning}\<close> pair: a category that
  decides settles the class, and the later ones are reached only when none before
  decided. In a ladder the first matching rule in the listed order wins, which for
  thresholds listed by descending minimum is the greatest minimum the value reaches.
  \<^verbatim>\<open>latencyClass\<close> falls back on the numeric defaults 50 and 100 when the metric has no
  pair.
\<close>

theorem color_class_by_priority:
  "(config_metric config metricKey = Some mc \<and> mc_color mc = Some cc \<longrightarrow>
      getMetricClass adapterData config metricKey =
        priority_class (or0 (adapterData metricKey)) mc cc \<and>
      (\<forall>cls. static_rule cc = Some cls \<longrightarrow> getMetricClass adapterData config metricKey = cls) \<and>
      (\<forall>cls. conditional_ladder (or0 (adapterData metricKey)) cc = Some cls \<longrightarrow>
         getMetricClass adapterData config metricKey = cls) \<and>
      (\<forall>cls. threshold_ladder (or0 (adapterData metricKey)) cc = Some cls \<longrightarrow>
         getMetricClass adapterData config metricKey = cls) \<and>
      (static_rule cc = None \<and> conditional_ladder (or0 (adapterData metricKey)) cc = None \<and>
       threshold_ladder (or0 (adapterData metricKey)) cc = None \<longrightarrow>
         getMetricClass adapterData config metricKey =
           default_fallback (or0 (adapterData metricKey)) mc)) \<and>
   (color_type cc = ''threshold'' \<and>
    sorted_wrt (\<lambda>s t. t_min t \<le> t_min s) (color_thresholds cc) \<and>
    find (\<lambda>t. t_min t \<le> ToNumber v) (color_thresholds cc) = Some t \<longrightarrow>
      threshold_ladder v cc = Some (t_class t) \<and>
      (\<forall>u \<in> set (color_thresholds cc). t_min u \<le> ToNumber v \<longrightarrow> t_min u \<le> t_min t)) \<and>
   ((case config_metric config ''avg_latency_ms'' of None \<Rightarrow> None | Some c \<Rightarrow> mc_thresholds c) = None \<longrightarrow>
      latencyClass adapterData config =
        (if ToNumber (or0 (adapterData ''avg_latency_ms'')) < 50 then ''text-success''
         else if ToNumber (or0 (adapterData ''avg_latency_ms'')) < 100 then ''text-warning''
         else ''text-danger''))"
proof (intro conjI impI)
  assume "config_metric config metricKey = Some mc \<and> mc_color mc = Some cc"
  then have eq: "getMetricClass adapterData config metricKey =
       priority_class (or0 (adapterData metricKey)) mc cc"
    by (simp add: getMetricClass_priority)
  then show "getMetricClass adapterData config metricKey =
       priority_class (or0 (adapterData metricKey)) mc cc" .
  show "\<forall>cls. static_rule cc = Some cls \<longrightarrow> getMetricClass adapterData config metricKey = cls"
    unfolding eq by (simp add: priority_class_def)
  show "\<forall>cls. conditional_ladder (or0 (adapterData metricKey)) cc = Some cls \<longrightarrow>
         getMetricClass adapterData config metricKey = cls"
    unfolding eq
    by (auto simp: priority_class_def static_rule_def conditional_ladder_def split: if_splits)
  show "\<forall>cls. threshold_ladder (or0 (adapterData metricKey)) cc = Some cls \<longrightarrow>
         getMetricClass adapterData config metricKey = cls"
    unfolding eq
    by (auto simp: priority_class_def static_rule_def conditional_ladder_def threshold_ladder_def
        split: if_splits)
next
  assume "config_metric config metricKey = Some mc \<and> mc_color mc = Some cc"
    and "static_rule cc = None \<and> conditional_ladder (or0 (adapterData metricKey)) cc = None \<and>
       threshold_ladder (or0 (adapterData metricKey)) cc = None"
  then show "getMetricClass adapterData config metricKey =
           default_fallback (or0 (adapterData metricKey)) mc"
    by (simp add: getMetricClass_priority priority_class_def)
next
  assume a: "color_type cc = ''threshold'' \<and>
    sorted_wrt (\<lambda>s t. t_min t \<le> t_min s) (color_thresholds cc) \<and>
    find (\<lambda>t. t_min t \<le> ToNumber v) (color_thresholds cc) = Some t"
  then show "threshold_ladder v cc = Some (t_class t)" by (simp add: threshold_ladder_def)
  from a show "\<forall>u \<in> set (color_thresholds cc). t_min u \<le> ToNumber v \<longrightarrow> t_min u \<le> t_min t"
    by (blast intro: find_sorted_greatest)
next
  assume "(case config_metric config ''avg_latency_ms'' of None \<Rightarrow> None | Some c \<Rightarrow> mc_thresholds c) = None"
  then show "latencyClass adapterData config =
        (if ToNumber (or0 (adapterData ''avg_latency_ms'')) < 50 then ''text-success''
         else if ToNumber (or0 (adapterData ''avg_latency_ms'')) < 100 then ''text-warning''
         else ''text-danger'')"
    by (rule latencyClass_defaults)
qed

theorem color_class_by_priority_witness:
  "config_metric (Some binance_config) ''validations_success'' =
     Some \<lparr>mc_color = Some static_color, mc_thresholds = None\<rparr> \<and>
   getMetricClass binance_data (Some binance_config) ''validations_success'' = ''text-success'' \<and>
   getMetricClass binance_data (Some binance_config) ''warnings'' = ''text-warning'' \<and>
   getMetricClass binance_data (Some binance_config) ''validation_success_rate'' = ''badge bg-warning'' \<and>
   sorted_wrt (\<lambda>s t. t_min t \<le> t_min s) (color_thresholds ladder_color) \<and>
   config_metric None ''avg_latency_ms'' = None \<and>
   latencyClass binance_data None = ''text-warning''"
proof -
  have k1: "config_metric (Some binance_config) ''validations_success'' =
      Some \<lparr>mc_color = Some static_color, mc_thresholds = None\<rparr>"
    and k2: "config_metric (Some binance_config) ''warnings'' =
      Some \<lparr>mc_color = Some warnings_color, mc_thresholds = None\<rparr>"
    and k3: "config_metric (Some binance_config) ''validation_success_rate'' =
      Some \<lparr>mc_color = Some ladder_color, mc_thresholds = None\<rparr>"
    and k4: "config_metric None ''avg_latency_ms'' = None"
    by (simp_all add: config_metric_def binance_config_def)
  have r1: "static_rule static_color = Some ''text-success''"
    by (simp add: static_rule_def static_color_def)
  have r2: "conditional_ladder (or0 (binance_data ''warnings'')) warnings_color = Some ''text-warning''"
    by (simp add: conditional_ladder_def warnings_color_def binance_data_def meetsCondition_def)
  have r3: "find (\<lambda>t. t_min t \<le> ToNumber (or0 (binance_data ''validation_success_rate'')))
      (color_thresholds ladder_color) = Some \<lparr>t_min = 95 / 100, t_class = ''badge bg-warning''\<rparr>"
    by (simp add: ladder_color_def binance_data_def)
  have r4: "sorted_wrt (\<lambda>s t. t_min t \<le> t_min s) (color_thresholds ladder_color)"
    by (simp add: ladder_color_def)
  have r5: "color_type ladder_color = ''threshold''" by (simp add: ladder_color_def)
  have r6: "ToNumber (or0 (binance_data ''avg_latency_ms'')) = 72" by (simp add: binance_data_def)
  note i1 = color_class_by_priority [of "Some binance_config" "''validations_success''"
      "\<lparr>mc_color = Some static_color, mc_thresholds = None\<rparr>" static_color binance_data
      "Num 0" "\<lparr>t_min = 0, t_class = []\<rparr>"]
  note i2 = color_class_by_priority [of "Some binance_config" "''warnings''"
      "\<lparr>mc_color = Some warnings_color, mc_thresholds = None\<rparr>" warnings_color binance_data
      "Num 0" "\<lparr>t_min = 0, t_class = []\<rparr>"]
  note i3 = color_class_by_priority [of "Some binance_config" "''validation_success_rate''"
      "\<lparr>mc_color = Some ladder_color, mc_thresholds = None\<rparr>" ladder_color binance_data
      "or0 (binance_data ''validation_success_rate'')"
      "\<lparr>t_min = 95 / 100, t_class = ''badge bg-warning''\<rparr>"]
  note i4 = color_class_by_priority [of None "''avg_latency_ms''"
      "\<lparr>mc_color = None, mc_thresholds = None\<rparr>" static_color binance_data
      "Num 0" "\<lparr>t_min = 0, t_class = []\<rparr>"]
  have m1: "mc_color \<lparr>mc_color = Some static_color, mc_thresholds = None\<rparr> = Some static_color"
    and m2: "mc_color \<lparr>mc_color = Some warnings_color, mc_thresholds = None\<rparr> = Some warnings_color"
    and m3: "mc_color \<lparr>mc_color = Some ladder_color, mc_thresholds = None\<rparr> = Some ladder_color"
    by simp_all
  from i1 k1 m1 r1 have "getMetricClass binance_data (Some binance_config) ''validations_success'' = ''text-success''"
    by blast
  moreover from i2 k2 m2 r2
  have "getMetricClass binance_data (Some binance_config) ''warnings'' = ''text-warning''"
    by blast
  moreover from i3 r3 r4 r5
  have "threshold_ladder (or0 (binance_data ''validation_success_rate'')) ladder_color =
      Some (t_class \<lparr>t_min = 95 / 100, t_class = ''badge bg-warning''\<rparr>)"
    by blast
  with i3 k3 m3
  have "getMetricClass binance_data (Some binance_config) ''validation_success_rate'' =
      t_class \<lparr>t_min = 95 / 100, t_class = ''badge bg-warning''\<rparr>"
    by blast
  moreover from i4 k4 have "latencyClass binance_data None =
        (if ToNumber (or0 (binance_data ''avg_latency_ms'')) < 50 then ''text-success''
         else if ToNumber (or0 (binance_data ''avg_latency_ms'')) < 100 then ''text-warning''
         else ''text-danger'')"
    by simp
  ultimately show ?thesis using k1 k4 r4 r6 by simp
qed

end
